theory Spec2Isabelle
  imports Main "HOL-Library.Sublist"
begin

section \<open>Routing configuration model (traefik/generate.go)\<close>

text \<open>
  Go strings are byte sequences; they are modelled as \<open>string\<close> (a list of characters).
  A Go \<open>map[string]string\<close> value is either the nil map or an allocated map; it is
  modelled as an optional partial function, \<open>None\<close> being the nil map. Reading the nil
  map behaves like reading an empty map, writing to it panics.
\<close>

type_synonym gomap = "(string \<rightharpoonup> string) option"

definition gomap_len_pos :: "gomap \<Rightarrow> bool" where
  \<comment> \<open>\<open>len(m) > 0\<close>\<close>
  "gomap_len_pos m = (case m of None \<Rightarrow> False | Some f \<Rightarrow> f \<noteq> Map.empty)"

record Router =
  Rule :: string
  Service :: string

record Server =
  URL :: string

record HealthCheck =
  Path :: string
  Interval :: string
  Timeout :: string
  Scheme :: string
  Mode :: string
  Hostname :: string
  Port :: string
  FollowRedirects :: string
  Method :: string
  Status :: string
  Headers :: gomap

record LoadBalancer =
  Servers :: "Server list"
  HealthCheck :: "HealthCheck option"

record BackendService =
  LoadBalancer :: LoadBalancer

record TraefikConfig =
  Routers :: "string \<rightharpoonup> Router"
  Services :: "string \<rightharpoonup> BackendService"

text \<open>
  \<open>BackendService\<close> is the Go struct \<open>Service\<close> (renamed, because \<open>Service\<close> is also the
  field of \<open>Router\<close>); \<open>TraefikConfig\<close> stands for the struct with its single anonymous
  \<open>HTTP\<close> member flattened. \<open>HealthCheck = None\<close> is the nil pointer.
\<close>

text \<open>
  The Go code builds its errors with \<open>fmt.Errorf\<close>; the model keeps one value for each
  place an error comes from, and \<open>Panic\<close> for a run-time panic.
\<close>

datatype error =
    ReadFileError
  | ParseError
  | MarshalError
  | WriteFileError
  | ListError
  | ScaleError
  | DeployError
  | InspectError
  | HealthTimeout
  | StopError
  | RemoveError
  | Panic

section \<open>strings.Split\<close>

text \<open>
  \<open>cut sep s\<close> finds the first occurrence of \<open>sep\<close> in \<open>s\<close> and returns the text before
  and after it, as \<open>strings.Index\<close> followed by the two slices does in \<open>strings.Split\<close>.
\<close>

fun cut :: "string \<Rightarrow> string \<Rightarrow> (string \<times> string) option" where
  "cut sep [] = (if sep = [] then Some ([], []) else None)"
| "cut sep (c # cs) =
     (if prefix sep (c # cs) then Some ([], drop (length sep) (c # cs))
      else (case cut sep cs of None \<Rightarrow> None | Some (b, a) \<Rightarrow> Some (c # b, a)))"

lemma cut_shorter: "cut sep s = Some (b, a) \<Longrightarrow> sep \<noteq> [] \<Longrightarrow> length a < length s"
proof (induction s arbitrary: b a)
  case Nil
  then show ?case by simp
next
  case (Cons c cs)
  show ?case
  proof (cases "prefix sep (c # cs)")
    case True
    with Cons.prems show ?thesis by (cases sep) auto
  next
    case False
    with Cons.prems obtain b' where "cut sep cs = Some (b', a)"
      by (auto split: option.splits)
    with Cons.IH Cons.prems(2) have "length a < length cs" by blast
    then show ?thesis by simp
  qed
qed

text \<open>
  \<open>Split s sep\<close> for a non-empty separator: all the pieces between successive,
  non-overlapping occurrences of \<open>sep\<close>, searched from the left. (With an empty separator
  Go explodes the string into its characters; the program never does that.)
\<close>

function Split :: "string \<Rightarrow> string \<Rightarrow> string list" where
  "Split s sep =
     (if sep = [] then map (\<lambda>c. [c]) s
      else (case cut sep s of None \<Rightarrow> [s] | Some (b, a) \<Rightarrow> b # Split a sep))"
  by pat_completeness auto
termination
  by (relation "measure (\<lambda>(s, sep). length s)") (auto dest: cut_shorter)

declare Split.simps [simp del]

section \<open>The Patcher: UpdateConfig\<close>

text \<open>
  The loop that fills \<open>containerMap\<close>: element \<open>i\<close> of \<open>oldContainers\<close> is paired with
  element \<open>i\<close> of \<open>newContainers\<close> while \<open>i < len(newContainers)\<close>. Both \<open>oldID[:12]\<close> and
  \<open>newContainers[i][:12]\<close> panic when the string has fewer than 12 bytes. Past the end
  of \<open>newContainers\<close> the loop goes on without doing anything.
\<close>

fun containerMap_loop ::
  "string list \<Rightarrow> string list \<Rightarrow> (string \<rightharpoonup> string) \<Rightarrow> error + (string \<rightharpoonup> string)" where
  "containerMap_loop [] news m = Inr m"
| "containerMap_loop (oldID # olds) [] m = containerMap_loop olds [] m"
| "containerMap_loop (oldID # olds) (newID # news) m =
     (if length oldID < 12 \<or> length newID < 12 then Inl Panic
      else containerMap_loop olds news (m(take 12 oldID \<mapsto> take 12 newID)))"

definition containerMap :: "string list \<Rightarrow> string list \<Rightarrow> error + (string \<rightharpoonup> string)" where
  "containerMap oldContainers newContainers =
     containerMap_loop oldContainers newContainers Map.empty"

text \<open>
  The two \<open>strings.Split\<close> calls on a server URL: \<open>Some (hostPort[0], hostPort[1])\<close> when
  both splits give exactly two parts, \<open>None\<close> when the loop body hits \<open>continue\<close>.
\<close>

definition parse_url :: "string \<Rightarrow> (string \<times> string) option" where
  "parse_url url =
     (case Split url ''//'' of
        [p0, p1] \<Rightarrow> (case Split p1 '':'' of [h, p] \<Rightarrow> Some (h, p) | _ \<Rightarrow> None)
      | _ \<Rightarrow> None)"

definition patch_url :: "(string \<rightharpoonup> string) \<Rightarrow> string \<Rightarrow> string" where
  "patch_url cm url =
     (case parse_url url of
        None \<Rightarrow> url
      | Some (oldContainerID, port) \<Rightarrow>
          (case cm oldContainerID of
             None \<Rightarrow> url
           | Some newID \<Rightarrow> ''http://'' @ newID @ '':'' @ port))"

definition patch_server :: "(string \<rightharpoonup> string) \<Rightarrow> Server \<Rightarrow> Server" where
  "patch_server cm server = server\<lparr>URL := patch_url cm (URL server)\<rparr>"

definition patch_service :: "(string \<rightharpoonup> string) \<Rightarrow> BackendService \<Rightarrow> BackendService" where
  "patch_service cm service =
     service\<lparr>LoadBalancer :=
       (LoadBalancer service)\<lparr>Servers := map (patch_server cm) (Servers (LoadBalancer service))\<rparr>\<rparr>"

text \<open>
  The loop over \<open>config.HTTP.Services\<close> visits every entry once and assigns only to the
  \<open>URL\<close> of servers of that entry, so the order of the iteration does not matter and the
  loop is the pointwise update of the map.
\<close>

definition patch_config :: "(string \<rightharpoonup> string) \<Rightarrow> TraefikConfig \<Rightarrow> TraefikConfig" where
  "patch_config cm config =
     config\<lparr>Services := (\<lambda>serviceName. map_option (patch_service cm) (Services config serviceName))\<rparr>"

text \<open>
  The part of \<open>UpdateConfig\<close> between parsing the document and serialising it again:
  from the parsed document to the document that is marshalled.
\<close>

definition UpdateConfig_doc ::
  "string list \<Rightarrow> string list \<Rightarrow> TraefikConfig \<Rightarrow> error + TraefikConfig" where
  "UpdateConfig_doc oldContainers newContainers config =
     (case containerMap oldContainers newContainers of
        Inl e \<Rightarrow> Inl e
      | Inr cm \<Rightarrow> Inr (patch_config cm config))"


section \<open>The Synthesizer: extractHealthCheck and GenerateConfig\<close>

text \<open>
  Of a \<open>container.Summary\<close> (a type of the Docker client library) the program reads the
  identifier and the labels. \<open>Labels\<close> is a Go map; it is modelled as an association
  list with one entry per key, whose order is the order in which a \<open>range\<close> loop visits
  the entries (Go leaves that order unspecified, so every order is a possible input).
  \<open>label ls k\<close> is the map read \<open>ls[k]\<close>: the empty string when the key is absent.
\<close>

record container_summary =
  ID :: string
  Labels :: "(string \<times> string) list"

definition label :: "(string \<times> string) list \<Rightarrow> string \<Rightarrow> string" where
  "label labels key = (case map_of labels key of None \<Rightarrow> [] | Some v \<Rightarrow> v)"

text \<open>
  \<open>json.Unmarshal\<close> into a \<open>map[string]string\<close> belongs to the Go library: it is a
  parameter of the model. It fails, or it succeeds and leaves a map, which is the nil map
  for the JSON text \<open>null\<close>.
\<close>

datatype json_result = JSONError | JSONMap gomap

definition healthCheck_prefix :: "string \<Rightarrow> string" where
  "healthCheck_prefix serviceName =
     ''traefik.http.services.'' @ serviceName @ ''.loadbalancer.healthCheck''"

text \<open>
  The loop that extracts the headers. The label \<open>prefix.headers\<close> replaces the whole
  map by the parsed JSON object (when it parses); a label \<open>prefix.headers.<name>\<close> stores
  one entry, which panics if the map is nil at that moment.
\<close>

fun headers_loop ::
  "(string \<Rightarrow> json_result) \<Rightarrow> string \<Rightarrow> (string \<times> string) list \<Rightarrow> gomap \<Rightarrow> error + gomap" where
  "headers_loop json pre [] headers = Inr headers"
| "headers_loop json pre ((key, val) # rest) headers =
     (if key = pre @ ''.headers'' then
        (case json val of
           JSONError \<Rightarrow> headers_loop json pre rest headers
         | JSONMap parsedHeaders \<Rightarrow> headers_loop json pre rest parsedHeaders)
      else if prefix (pre @ ''.headers.'') key then
        (case headers of
           None \<Rightarrow> Inl Panic
         | Some h \<Rightarrow>
             headers_loop json pre rest
               (Some (h(drop (length (pre @ ''.headers.'')) key \<mapsto> val))))
      else headers_loop json pre rest headers)"

text \<open>
  \<open>extractHealthCheck\<close>: \<open>Inr None\<close> is the nil result. Each string field is assigned
  only when the label is non-empty and is the empty string otherwise, which is the value
  of the label read in both cases. \<open>Headers\<close> stays nil unless the extracted map has an
  entry.
\<close>

definition extractHealthCheck ::
  "(string \<Rightarrow> json_result) \<Rightarrow> (string \<times> string) list \<Rightarrow> string \<Rightarrow> error + HealthCheck option" where
  "extractHealthCheck json labels serviceName =
     (let pre = healthCheck_prefix serviceName in
      if \<not> list_ex (\<lambda>(key, val). prefix pre key) labels then Inr None
      else
        (case headers_loop json pre labels (Some Map.empty) of
           Inl e \<Rightarrow> Inl e
         | Inr headers \<Rightarrow>
             Inr (Some \<lparr>
               Path = label labels (pre @ ''.path''),
               Interval = label labels (pre @ ''.interval''),
               Timeout = label labels (pre @ ''.timeout''),
               Scheme = label labels (pre @ ''.scheme''),
               Mode = label labels (pre @ ''.mode''),
               Hostname = label labels (pre @ ''.hostname''),
               Port = label labels (pre @ ''.port''),
               FollowRedirects = label labels (pre @ ''.followRedirects''),
               Method = label labels (pre @ ''.method''),
               Status = label labels (pre @ ''.status''),
               Headers = (if gomap_len_pos headers then headers else None) \<rparr>)))"

definition hasValues :: "HealthCheck \<Rightarrow> bool" where
  "hasValues healthCheck \<longleftrightarrow>
     Path healthCheck \<noteq> [] \<or> Interval healthCheck \<noteq> [] \<or> Timeout healthCheck \<noteq> [] \<or>
     Scheme healthCheck \<noteq> [] \<or> Mode healthCheck \<noteq> [] \<or> Hostname healthCheck \<noteq> [] \<or>
     Port healthCheck \<noteq> [] \<or> FollowRedirects healthCheck \<noteq> [] \<or>
     Method healthCheck \<noteq> [] \<or> Status healthCheck \<noteq> [] \<or>
     gomap_len_pos (Headers healthCheck)"

text \<open>
  The health check that \<open>GenerateConfig\<close> stores in \<open>service.LoadBalancer.HealthCheck\<close>
  (the block "Add health check if configured").
\<close>

definition service_healthCheck ::
  "(string \<Rightarrow> json_result) \<Rightarrow> (string \<times> string) list \<Rightarrow> string \<Rightarrow> error + HealthCheck option" where
  "service_healthCheck json labels serviceName =
     (case extractHealthCheck json labels serviceName of
        Inl e \<Rightarrow> Inl e
      | Inr None \<Rightarrow> Inr None
      | Inr (Some healthCheck) \<Rightarrow>
          Inr (if hasValues healthCheck then Some healthCheck else None))"

text \<open>The servers list: \<open>c.ID[:12]\<close> panics on an identifier shorter than 12 bytes.\<close>

fun servers_loop :: "string \<Rightarrow> container_summary list \<Rightarrow> error + Server list" where
  "servers_loop port [] = Inr []"
| "servers_loop port (c # cs) =
     (if length (ID c) < 12 then Inl Panic
      else (case servers_loop port cs of
              Inl e \<Rightarrow> Inl e
            | Inr servers \<Rightarrow> Inr (\<lparr>URL = ''http://'' @ take 12 (ID c) @ '':'' @ port\<rparr> # servers)))"

text \<open>
  The body of the loop "Process each service": \<open>Inr None\<close> when the service is skipped
  by one of the \<open>continue\<close> statements, the router and the service otherwise.
\<close>

definition process_service ::
  "(string \<Rightarrow> json_result) \<Rightarrow> string \<Rightarrow> container_summary list \<Rightarrow>
     error + (Router \<times> BackendService) option" where
  "process_service json serviceName serviceContainers =
     (case serviceContainers of
        [] \<Rightarrow> Inr None
      | container # _ \<Rightarrow>
          if label (Labels container) ''traefik.enable'' \<noteq> ''true'' then Inr None
          else
            let rule = label (Labels container) (''traefik.http.routers.'' @ serviceName @ ''.rule'')
            in if rule = [] then Inr None
            else
              let port0 = label (Labels container)
                    (''traefik.http.services.'' @ serviceName @ ''.loadbalancer.server.port'');
                  port = (if port0 = [] then ''80'' else port0)
              in (case servers_loop port serviceContainers of
                    Inl e \<Rightarrow> Inl e
                  | Inr servers \<Rightarrow>
                      if servers = [] then Inr None
                      else
                        (case service_healthCheck json (Labels container) serviceName of
                           Inl e \<Rightarrow> Inl e
                         | Inr healthCheck \<Rightarrow>
                             Inr (Some (\<lparr>Rule = rule, Service = serviceName\<rparr>,
                                        \<lparr>LoadBalancer =
                                           \<lparr>Servers = servers, HealthCheck = healthCheck\<rparr>\<rparr>)))))"

text \<open>
  The map \<open>serviceContainers\<close>: the containers of each service named in the compose
  files, in the order of the inventory. \<open>service_keys\<close> lists its keys (in the order of
  first appearance; Go visits them in an unspecified order, which changes nothing in the
  result: every key is processed once and writes its own two entries, and a panic in any
  of them ends the run).
\<close>

definition compose_service_of :: "(string \<Rightarrow> bool) \<Rightarrow> container_summary \<Rightarrow> string option" where
  "compose_service_of composeServices container =
     (let serviceName = label (Labels container) ''com.docker.compose.service''
      in if serviceName = [] then None
         else if composeServices serviceName then Some serviceName else None)"

definition service_group ::
  "(string \<Rightarrow> bool) \<Rightarrow> container_summary list \<Rightarrow> string \<Rightarrow> container_summary list" where
  "service_group composeServices containers serviceName =
     filter (\<lambda>c. compose_service_of composeServices c = Some serviceName) containers"

definition service_keys :: "(string \<Rightarrow> bool) \<Rightarrow> container_summary list \<Rightarrow> string list" where
  "service_keys composeServices containers =
     remdups (List.map_filter (compose_service_of composeServices) containers)"

fun services_loop ::
  "(string \<Rightarrow> json_result) \<Rightarrow> (string \<Rightarrow> container_summary list) \<Rightarrow> string list \<Rightarrow>
     TraefikConfig \<Rightarrow> error + TraefikConfig" where
  "services_loop json groups [] config = Inr config"
| "services_loop json groups (serviceName # rest) config =
     (case process_service json serviceName (groups serviceName) of
        Inl e \<Rightarrow> Inl e
      | Inr None \<Rightarrow> services_loop json groups rest config
      | Inr (Some (router, service)) \<Rightarrow>
          services_loop json groups rest
            (config\<lparr>Routers := (Routers config)(serviceName \<mapsto> router),
                    Services := (Services config)(serviceName \<mapsto> service)\<rparr>))"

text \<open>
  The part of \<open>GenerateConfig\<close> between reading the compose files and serialising: from
  the set of compose services and the container inventory to the document.
\<close>

definition GenerateConfig_doc ::
  "(string \<Rightarrow> json_result) \<Rightarrow> (string \<Rightarrow> bool) \<Rightarrow> container_summary list \<Rightarrow> error + TraefikConfig" where
  "GenerateConfig_doc json composeServices containers =
     services_loop json (service_group composeServices containers)
       (service_keys composeServices containers)
       \<lparr>Routers = Map.empty, Services = Map.empty\<rparr>"


section \<open>Publishing the document: files\<close>

text \<open>
  The file system as the two functions see it: the content of each existing file, and
  the paths that cannot be written. \<open>os.ReadFile\<close> and \<open>os.WriteFile\<close> belong to the Go
  library and are modelled from its documentation: \<open>WriteFile\<close> opens the named file
  with \<open>O_WRONLY|O_CREATE|O_TRUNC\<close>, which empties an existing file, and then writes the
  data. \<open>os_WriteFile\<close> returns the error and the file-system states the call goes
  through, in order; a reader running beside the program sees the state before the call
  or any of these.
\<close>

record os_state =
  files :: "string \<rightharpoonup> string"
  unwritable :: "string \<Rightarrow> bool"

definition os_ReadFile :: "os_state \<Rightarrow> string \<Rightarrow> error + string" where
  "os_ReadFile st name = (case files st name of None \<Rightarrow> Inl ReadFileError | Some d \<Rightarrow> Inr d)"

definition os_WriteFile :: "os_state \<Rightarrow> string \<Rightarrow> string \<Rightarrow> error option \<times> os_state list" where
  "os_WriteFile st name d =
     (if unwritable st name then (Some WriteFileError, [])
      else (None, [st\<lparr>files := (files st)(name \<mapsto> [])\<rparr>,
                   st\<lparr>files := (files st)(name \<mapsto> d)\<rparr>]))"

text \<open>
  \<open>UpdateConfig\<close>, with the YAML codec (\<open>yaml.Unmarshal\<close> into a \<open>TraefikConfig\<close> and
  \<open>yaml.Marshal\<close> of it, both of the library \<open>gopkg.in/yaml.v3\<close>) as parameters.
\<close>

definition UpdateConfig ::
  "(string \<Rightarrow> TraefikConfig option) \<Rightarrow> (TraefikConfig \<Rightarrow> string option) \<Rightarrow>
     string list \<Rightarrow> string list \<Rightarrow> string \<Rightarrow> os_state \<Rightarrow> error option \<times> os_state list" where
  "UpdateConfig unmarshal marshal oldContainers newContainers configPath st =
     (case os_ReadFile st configPath of
        Inl e \<Rightarrow> (Some e, [])
      | Inr d \<Rightarrow>
          (case unmarshal d of
             None \<Rightarrow> (Some ParseError, [])
           | Some config \<Rightarrow>
               (case UpdateConfig_doc oldContainers newContainers config of
                  Inl e \<Rightarrow> (Some e, [])
                | Inr config' \<Rightarrow>
                    (case marshal config' of
                       None \<Rightarrow> (Some MarshalError, [])
                     | Some yamlData \<Rightarrow> os_WriteFile st configPath yamlData))))"

text \<open>
  The first loop of \<open>GenerateConfig\<close>: the names of the services of every compose file.
  \<open>parse_compose\<close> is \<open>yaml.Unmarshal\<close> into the struct with the \<open>services\<close> map,
  returning the keys of that map.
\<close>

fun composeServices_loop ::
  "(string \<Rightarrow> string list option) \<Rightarrow> os_state \<Rightarrow> string list \<Rightarrow> (string \<Rightarrow> bool) \<Rightarrow>
     error + (string \<Rightarrow> bool)" where
  "composeServices_loop parse_compose st [] composeServices = Inr composeServices"
| "composeServices_loop parse_compose st (file # rest) composeServices =
     (case os_ReadFile st file of
        Inl e \<Rightarrow> Inl e
      | Inr d \<Rightarrow>
          (case parse_compose d of
             None \<Rightarrow> Inl ParseError
           | Some names \<Rightarrow>
               composeServices_loop parse_compose st rest
                 (\<lambda>serviceName. serviceName \<in> set names \<or> composeServices serviceName)))"

text \<open>\<open>GenerateConfig\<close> (its parameter \<open>serviceIPs\<close> is never read and is left out).\<close>

definition GenerateConfig ::
  "(string \<Rightarrow> string list option) \<Rightarrow> (string \<Rightarrow> json_result) \<Rightarrow> (TraefikConfig \<Rightarrow> string option) \<Rightarrow>
     container_summary list \<Rightarrow> string list \<Rightarrow> string \<Rightarrow> os_state \<Rightarrow> error option \<times> os_state list" where
  "GenerateConfig parse_compose json marshal containers composeFiles configPath st =
     (case composeServices_loop parse_compose st composeFiles (\<lambda>serviceName. False) of
        Inl e \<Rightarrow> (Some e, [])
      | Inr composeServices \<Rightarrow>
          (case GenerateConfig_doc json composeServices containers of
             Inl e \<Rightarrow> (Some e, [])
           | Inr config \<Rightarrow>
               (case marshal config of
                  None \<Rightarrow> (Some MarshalError, [])
                | Some yamlData \<Rightarrow> os_WriteFile st configPath yamlData)))"


section \<open>The Docker client (package docker)\<close>

text \<open>
  What the program does to the outside world is recorded as the list of the calls it
  makes, in order. What the outside world answers is given by an environment: a record
  of the answers of the Docker daemon and of the \<open>docker compose\<close> commands.
\<close>

datatype event =
    EvDeployService string bool
  | EvGetServiceContainers string
  | EvScaleService string nat
  | EvContainerInspect string
  | EvSleep int
  | EvContainerStop string
  | EvContainerRemove string
  | EvUpdateConfig "string list" "string list" string

text \<open>
  The answer of \<open>ContainerInspect\<close>: the call fails, or it returns a container whose
  \<open>State.Health\<close> is nil (\<open>Inspected None\<close>) or has a \<open>Status\<close>.
\<close>

datatype inspect_result = InspectFailed | Inspected "string option"

definition CheckContainerHealth :: "inspect_result \<Rightarrow> error + bool" where
  "CheckContainerHealth r =
     (case r of
        InspectFailed \<Rightarrow> Inl InspectError
      | Inspected None \<Rightarrow> Inr True
      | Inspected (Some status) \<Rightarrow> Inr (status = ''healthy''))"

text \<open>
  The inner loop of \<open>WaitForHealthyContainers\<close>, one tick: the identifiers inspected, in
  order, and \<open>allHealthy\<close> (or the error that ends the wait). The loop stops at the first
  container that is not healthy.
\<close>

fun poll :: "(string \<Rightarrow> inspect_result) \<Rightarrow> string list \<Rightarrow> string list \<times> (error + bool)" where
  "poll ins [] = ([], Inr True)"
| "poll ins (containerID # rest) =
     (case CheckContainerHealth (ins containerID) of
        Inl e \<Rightarrow> ([containerID], Inl e)
      | Inr healthy \<Rightarrow>
          if \<not> healthy then ([containerID], Inr False)
          else (case poll ins rest of (seen, r) \<Rightarrow> (containerID # seen, r)))"

text \<open>
  Time is counted in nanoseconds, as \<open>time.Duration\<close> does. The clock of the model
  advances only in \<open>time.Sleep\<close>, by exactly the duration slept: an inspection takes no
  time. \<open>ins t\<close> is what the daemon answers at time \<open>t\<close>.
\<close>

definition second :: int where
  "second = 1000000000"

function WaitLoop ::
  "(int \<Rightarrow> string \<Rightarrow> inspect_result) \<Rightarrow> int \<Rightarrow> int \<Rightarrow> string list \<Rightarrow> event list \<times> error option" where
  "WaitLoop ins deadline now containerIDs =
     (if now < deadline then
        (case poll (ins now) containerIDs of
           (seen, Inl e) \<Rightarrow> (map EvContainerInspect seen, Some e)
         | (seen, Inr allHealthy) \<Rightarrow>
             if allHealthy then (map EvContainerInspect seen, None)
             else (case WaitLoop ins deadline (now + second) containerIDs of
                     (evs, r) \<Rightarrow> (map EvContainerInspect seen @ EvSleep second # evs, r)))
      else ([], Some HealthTimeout))"
  by pat_completeness auto
termination
  by (relation "measure (\<lambda>(ins, deadline, now, containerIDs). nat (deadline - now))")
     (auto simp: second_def)

declare WaitLoop.simps [simp del]

definition WaitForHealthyContainers ::
  "(int \<Rightarrow> string \<Rightarrow> inspect_result) \<Rightarrow> int \<Rightarrow> string list \<Rightarrow> int \<Rightarrow> event list \<times> error option" where
  "WaitForHealthyContainers ins now containerIDs timeout =
     WaitLoop ins (now + timeout) now containerIDs"

text \<open>
  \<open>StopAndRemoveContainers\<close>: \<open>stop_fails\<close> and \<open>remove_fails\<close> tell for which containers
  the daemon refuses the call. The function returns at the first refusal.
\<close>

fun StopAndRemoveContainers ::
  "(string \<Rightarrow> bool) \<Rightarrow> (string \<Rightarrow> bool) \<Rightarrow> string list \<Rightarrow> event list \<times> error option" where
  "StopAndRemoveContainers stop_fails remove_fails [] = ([], None)"
| "StopAndRemoveContainers stop_fails remove_fails (containerID # rest) =
     (if stop_fails containerID then ([EvContainerStop containerID], Some StopError)
      else if remove_fails containerID then
        ([EvContainerStop containerID, EvContainerRemove containerID], Some RemoveError)
      else (case StopAndRemoveContainers stop_fails remove_fails rest of
              (evs, r) \<Rightarrow> (EvContainerStop containerID # EvContainerRemove containerID # evs, r)))"

text \<open>
  \<open>GetServiceContainers\<close> (package compose): the identifiers of the listed containers
  whose compose-service label is the service; \<open>None\<close> is a failed \<open>ContainerList\<close>.
\<close>

definition GetServiceContainers :: "container_summary list option \<Rightarrow> string \<Rightarrow> error + string list" where
  "GetServiceContainers listing serviceName =
     (case listing of
        None \<Rightarrow> Inl ListError
      | Some containers \<Rightarrow>
          Inr (map ID (filter (\<lambda>c. label (Labels c) ''com.docker.compose.service'' = serviceName)
                         containers)))"

text \<open>
  \<open>ScaleService\<close> (package compose): the \<open>docker compose up --scale\<close> command, then the
  containers of the service.
\<close>

definition ScaleService :: "bool \<Rightarrow> container_summary list option \<Rightarrow> string \<Rightarrow> error + string list" where
  "ScaleService command_fails listing serviceName =
     (if command_fails then Inl ScaleError else GetServiceContainers listing serviceName)"

section \<open>The orchestrator (main.go)\<close>

record Config =
  HealthcheckTimeout :: int
  NoHealthcheckTimeout :: int
  WaitAfterHealthyDelay :: int
  TraefikConfFile :: string
  ServiceArg :: string

text \<open>
  \<open>ServiceArg\<close> is the field \<open>Service\<close> of the Go struct \<open>Config\<close>. The environment of one
  run of \<open>main\<close>: the answers to the three container listings (before the emptiness test,
  before scaling, after scaling), to the scale command and to \<open>DeployService\<close>, the time
  at which the health gate starts, and the answers to inspect, stop and remove.
\<close>

record env =
  deploy_fails :: "string \<Rightarrow> bool \<Rightarrow> bool"
  listing0 :: "container_summary list option"
  listing1 :: "container_summary list option"
  scale_fails :: "string \<Rightarrow> nat \<Rightarrow> bool"
  listing2 :: "container_summary list option"
  gate_now :: int
  inspect :: "int \<Rightarrow> string \<Rightarrow> inspect_result"
  stop_fails :: "string \<Rightarrow> bool"
  remove_fails :: "string \<Rightarrow> bool"

text \<open>
  How \<open>main\<close> ends: it returns (exit status 0), it stops in \<open>log.Fatalf\<close> (exit status 1),
  or it leaves through \<open>os.Exit(1)\<close> at the end of the rollback branch.
\<close>

datatype outcome = Returned | Fatal | RolledBack

fun exit_code :: "outcome \<Rightarrow> int" where
  "exit_code Returned = 0"
| "exit_code Fatal = 1"
| "exit_code RolledBack = 1"

text \<open>The loop "Filter out old containers from newContainers".\<close>

fun isOld :: "string \<Rightarrow> string list \<Rightarrow> bool" where
  "isOld newID [] = False"
| "isOld newID (oldID # rest) = (if newID = oldID then True else isOld newID rest)"

fun filteredNewContainers :: "string list \<Rightarrow> string list \<Rightarrow> string list" where
  "filteredNewContainers oldContainers [] = []"
| "filteredNewContainers oldContainers (newID # rest) =
     (if \<not> isOld newID oldContainers then newID # filteredNewContainers oldContainers rest
      else filteredNewContainers oldContainers rest)"

text \<open>
  \<open>main\<close> from the health gate to its end, for the containers computed before:
  the events and the outcome.
\<close>

definition gate_and_swap :: "Config \<Rightarrow> env \<Rightarrow> string list \<Rightarrow> string list \<Rightarrow> event list \<times> outcome" where
  "gate_and_swap config e oldContainers newContainers =
     (case WaitForHealthyContainers (inspect e) (gate_now e) newContainers (HealthcheckTimeout config) of
        (gate_evs, Some err) \<Rightarrow>
          (case StopAndRemoveContainers (stop_fails e) (remove_fails e) newContainers of
             (rollback_evs, r) \<Rightarrow> (gate_evs @ rollback_evs, RolledBack))
      | (gate_evs, None) \<Rightarrow>
          (let drain_evs =
                 EvUpdateConfig oldContainers newContainers (TraefikConfFile config) #
                 (if WaitAfterHealthyDelay config > 0 then [EvSleep (WaitAfterHealthyDelay config)]
                  else []) @
                 [EvSleep (NoHealthcheckTimeout config)]
           in (case StopAndRemoveContainers (stop_fails e) (remove_fails e) oldContainers of
                 (cleanup_evs, Some err) \<Rightarrow> (gate_evs @ drain_evs @ cleanup_evs, Fatal)
               | (cleanup_evs, None) \<Rightarrow> (gate_evs @ drain_evs @ cleanup_evs, Returned))))"

text \<open>
  \<open>main\<close> after \<open>parseArgs\<close> and the creation of the client (the plugin-metadata
  pseudo-argument and the parsing of the command line are left out). The number of
  replicas is \<open>len(containers) * 2\<close>, which cannot overflow an \<open>int\<close> for a slice that
  fits in memory.
\<close>

definition main :: "Config \<Rightarrow> env \<Rightarrow> event list \<times> outcome" where
  "main config e =
     (let service = ServiceArg config in
      if service = ''up'' \<or> service = ''up -d'' then
        ([EvDeployService ''up'' (service = ''up -d'')],
         if deploy_fails e ''up'' (service = ''up -d'') then Fatal else Returned)
      else
        (case GetServiceContainers (listing0 e) service of
           Inl err \<Rightarrow> ([EvGetServiceContainers service], Fatal)
         | Inr containers \<Rightarrow>
             if containers = [] then
               ([EvGetServiceContainers service, EvDeployService service True],
                if deploy_fails e service True then Fatal else Returned)
             else
               (case GetServiceContainers (listing1 e) service of
                  Inl err \<Rightarrow> ([EvGetServiceContainers service, EvGetServiceContainers service], Fatal)
                | Inr oldContainers \<Rightarrow>
                    (let scale = length containers * 2;
                         pre_evs = [EvGetServiceContainers service, EvGetServiceContainers service,
                                    EvScaleService service scale]
                     in (case ScaleService (scale_fails e service scale) (listing2 e) service of
                           Inl err \<Rightarrow> (pre_evs, Fatal)
                         | Inr newContainers \<Rightarrow>
                             (case gate_and_swap config e oldContainers
                                     (filteredNewContainers oldContainers newContainers) of
                                (evs, out) \<Rightarrow> (pre_evs @ evs, out)))))))"

section \<open>Auxiliary definitions for the statements\<close>

text \<open>
  The pairs that \<open>containerMap_loop\<close> walks through are the elements of
  \<open>zip oldContainers newContainers\<close>: \<open>long_pair\<close> says that the two slices of a pair do
  not panic, \<open>upd_pair\<close> is the assignment of one iteration, \<open>short_pair\<close> the pair of
  short forms.
\<close>

definition short_pair :: "string \<times> string \<Rightarrow> string \<times> string" where
  "short_pair p = (take 12 (fst p), take 12 (snd p))"

fun upd_pair :: "(string \<rightharpoonup> string) \<Rightarrow> string \<times> string \<Rightarrow> (string \<rightharpoonup> string)" where
  "upd_pair m (oldID, newID) = m(take 12 oldID \<mapsto> take 12 newID)"

fun long_pair :: "string \<times> string \<Rightarrow> bool" where
  "long_pair (oldID, newID) = (12 \<le> length oldID \<and> 12 \<le> length newID)"



text \<open>An example document, with one address that does not have the expected shape.\<close>

definition example_service :: BackendService where
  "example_service =
     \<lparr>LoadBalancer = \<lparr>Servers = [\<lparr>URL = ''http://aaaaaaaaaaaa:80''\<rparr>,
                                  \<lparr>URL = ''http://bbbbbbbbbbbb:80''\<rparr>,
                                  \<lparr>URL = ''bbbbbbbbbbbb:80''\<rparr>],
                       HealthCheck = None\<rparr>\<rparr>"

definition example_config :: TraefikConfig where
  "example_config =
     \<lparr>Routers = [''api'' \<mapsto> \<lparr>Rule = ''Host(`a.com`)'', Service = ''api''\<rparr>],
      Services = [''api'' \<mapsto> example_service]\<rparr>"

text \<open>
  The fields of a health check as the labels give them: \<open>label_fields\<close> is the record
  whose fields are the values of the ten labels under the prefix and the extracted
  header map, \<open>label_fields_nonempty\<close> says that one of them is not empty.
\<close>

definition label_fields_nonempty :: "(string \<times> string) list \<Rightarrow> string \<Rightarrow> gomap \<Rightarrow> bool" where
  "label_fields_nonempty labels pre headers \<longleftrightarrow>
     label labels (pre @ ''.path'') \<noteq> [] \<or> label labels (pre @ ''.interval'') \<noteq> [] \<or>
     label labels (pre @ ''.timeout'') \<noteq> [] \<or> label labels (pre @ ''.scheme'') \<noteq> [] \<or>
     label labels (pre @ ''.mode'') \<noteq> [] \<or> label labels (pre @ ''.hostname'') \<noteq> [] \<or>
     label labels (pre @ ''.port'') \<noteq> [] \<or> label labels (pre @ ''.followRedirects'') \<noteq> [] \<or>
     label labels (pre @ ''.method'') \<noteq> [] \<or> label labels (pre @ ''.status'') \<noteq> [] \<or>
     gomap_len_pos headers"

definition label_fields :: "(string \<times> string) list \<Rightarrow> string \<Rightarrow> gomap \<Rightarrow> HealthCheck" where
  "label_fields labels pre headers =
     \<lparr>Path = label labels (pre @ ''.path''),
      Interval = label labels (pre @ ''.interval''),
      Timeout = label labels (pre @ ''.timeout''),
      Scheme = label labels (pre @ ''.scheme''),
      Mode = label labels (pre @ ''.mode''),
      Hostname = label labels (pre @ ''.hostname''),
      Port = label labels (pre @ ''.port''),
      FollowRedirects = label labels (pre @ ''.followRedirects''),
      Method = label labels (pre @ ''.method''),
      Status = label labels (pre @ ''.status''),
      Headers = (if gomap_len_pos headers then headers else None)\<rparr>"

text \<open>An example container with a health-check path and one header label.\<close>

definition example_container :: container_summary where
  "example_container =
     \<lparr>ID = ''0123456789abcdef'',
      Labels = [(''com.docker.compose.service'', ''api''),
                (''traefik.enable'', ''true''),
                (''traefik.http.routers.api.rule'', ''Host(a.com)''),
                (''traefik.http.services.api.loadbalancer.healthCheck.path'', ''/health''),
                (''traefik.http.services.api.loadbalancer.healthCheck.headers.X-Probe'', ''1'')]\<rparr>"

definition example_healthCheck :: HealthCheck where
  "example_healthCheck =
     \<lparr>Path = ''/health'', Interval = [], Timeout = [], Scheme = [], Mode = [], Hostname = [],
      Port = [], FollowRedirects = [], Method = [], Status = [],
      Headers = Some [''X-Probe'' \<mapsto> ''1'']\<rparr>"

definition example_generated :: TraefikConfig where
  "example_generated =
     \<lparr>Routers = [''api'' \<mapsto> \<lparr>Rule = ''Host(a.com)'', Service = ''api''\<rparr>],
      Services = [''api'' \<mapsto>
        \<lparr>LoadBalancer = \<lparr>Servers = [\<lparr>URL = ''http://0123456789ab:80''\<rparr>],
                          HealthCheck = Some example_healthCheck\<rparr>\<rparr>]\<rparr>"

text \<open>The containers that a list of events stops, and those it removes, in order.\<close>

fun stop_ids :: "event list \<Rightarrow> string list" where
  "stop_ids [] = []"
| "stop_ids (EvContainerStop containerID # evs) = containerID # stop_ids evs"
| "stop_ids (ev # evs) = stop_ids evs"

fun remove_ids :: "event list \<Rightarrow> string list" where
  "remove_ids [] = []"
| "remove_ids (EvContainerRemove containerID # evs) = containerID # remove_ids evs"
| "remove_ids (ev # evs) = remove_ids evs"

text \<open>
  Example runs of \<open>docker ztd -t 2 api\<close>: one container running and a healthy new one;
  the same with a daemon that refuses to inspect; two containers running, two new ones
  that stay in state \<open>starting\<close>, and a daemon that refuses to stop the first of them.
\<close>

definition api_container :: "string \<Rightarrow> container_summary" where
  "api_container containerID =
     \<lparr>ID = containerID, Labels = [(''com.docker.compose.service'', ''api'')]\<rparr>"

definition example_run :: Config where
  "example_run =
     \<lparr>HealthcheckTimeout = 2 * second, NoHealthcheckTimeout = 10 * second,
      WaitAfterHealthyDelay = 0, TraefikConfFile = ''traefik/dynamic_conf.yml'',
      ServiceArg = ''api''\<rparr>"

definition env_healthy :: env where
  "env_healthy =
     \<lparr>deploy_fails = (\<lambda>s d. False),
      listing0 = Some [api_container ''aaaaaaaaaaaa0001''],
      listing1 = Some [api_container ''aaaaaaaaaaaa0001''],
      scale_fails = (\<lambda>s n. False),
      listing2 = Some [api_container ''aaaaaaaaaaaa0001'', api_container ''cccccccccccc0003''],
      gate_now = 0,
      inspect = (\<lambda>t c. Inspected (Some ''healthy'')),
      stop_fails = (\<lambda>c. False),
      remove_fails = (\<lambda>c. False)\<rparr>"

definition env_inspect_fails :: env where
  "env_inspect_fails = env_healthy\<lparr>inspect := (\<lambda>t c. InspectFailed)\<rparr>"

definition env_stop_fails :: env where
  "env_stop_fails =
     \<lparr>deploy_fails = (\<lambda>s d. False),
      listing0 = Some [api_container ''aaaaaaaaaaaa0001'', api_container ''bbbbbbbbbbbb0002''],
      listing1 = Some [api_container ''aaaaaaaaaaaa0001'', api_container ''bbbbbbbbbbbb0002''],
      scale_fails = (\<lambda>s n. False),
      listing2 = Some [api_container ''aaaaaaaaaaaa0001'', api_container ''bbbbbbbbbbbb0002'',
                       api_container ''cccccccccccc0003'', api_container ''dddddddddddd0004''],
      gate_now = 0,
      inspect = (\<lambda>t c. Inspected (Some ''starting'')),
      stop_fails = (\<lambda>c. c = ''cccccccccccc0003''),
      remove_fails = (\<lambda>c. False)\<rparr>"




text \<open>
  A disk with a compose file and a published routing document, and codecs that read
  the text \<open>old\<close> as the example document and write every document as the text \<open>new\<close>.
\<close>

definition example_disk :: os_state where
  "example_disk =
     \<lparr>files = [''docker-compose.yml'' \<mapsto> ''services: {api: {}}'',
               ''traefik/dynamic_conf.yml'' \<mapsto> ''old''],
      unwritable = (\<lambda>name. False)\<rparr>"

definition example_unmarshal :: "string \<Rightarrow> TraefikConfig option" where
  "example_unmarshal d = (if d = ''old'' then Some example_config else None)"

definition example_marshal :: "TraefikConfig \<Rightarrow> string option" where
  "example_marshal config = Some ''new''"

definition example_parse_compose :: "string \<Rightarrow> string list option" where
  "example_parse_compose d = Some [''api'']"

definition example_json :: "string \<Rightarrow> json_result" where
  "example_json v = JSONError"


section \<open>Properties of the Patcher\<close>

subsection \<open>The container map\<close>

lemma containerMap_loop_closed:
  "containerMap_loop olds news m =
     (if list_all long_pair (zip olds news) then Inr (foldl upd_pair m (zip olds news)) else Inl Panic)"
proof (induction olds arbitrary: news m)
  case Nil
  then show ?case by simp
next
  case (Cons oldID olds)
  show ?case
  proof (cases news)
    case Nil
    with Cons show ?thesis by simp
  next
    case (Cons newID news')
    define m' where "m' = m(take 12 oldID \<mapsto> take 12 newID)"
    have step: "containerMap_loop (oldID # olds) (newID # news') m =
        (if length oldID < 12 \<or> length newID < 12 then Inl Panic
         else containerMap_loop olds news' m')"
      unfolding m'_def by (rule containerMap_loop.simps(3))
    have fold: "foldl upd_pair m (zip (oldID # olds) (newID # news')) =
        foldl upd_pair m' (zip olds news')"
      unfolding m'_def by simp
    show ?thesis
      unfolding Cons step fold Cons.IH [of news' m']
      by (simp add: not_less)
  qed
qed

lemma foldl_upd_pair_lookup:
  "foldl upd_pair Map.empty ps h = Some v \<longleftrightarrow>
     (\<exists>i < length ps. short_pair (ps ! i) = (h, v) \<and>
        (\<forall>j < length ps. i < j \<longrightarrow> fst (short_pair (ps ! j)) \<noteq> h))"
proof (induction ps arbitrary: v rule: rev_induct)
  case Nil
  then show ?case by simp
next
  case (snoc x xs)
  show ?case
  proof (cases "take 12 (fst x) = h")
    case True
    have "foldl upd_pair Map.empty (xs @ [x]) h = Some (take 12 (snd x))"
      using True by (cases x) simp
    moreover have "(\<exists>i < length (xs @ [x]). short_pair ((xs @ [x]) ! i) = (h, v) \<and>
        (\<forall>j < length (xs @ [x]). i < j \<longrightarrow> fst (short_pair ((xs @ [x]) ! j)) \<noteq> h))
        \<longleftrightarrow> v = take 12 (snd x)"
    proof
      assume "\<exists>i < length (xs @ [x]). short_pair ((xs @ [x]) ! i) = (h, v) \<and>
        (\<forall>j < length (xs @ [x]). i < j \<longrightarrow> fst (short_pair ((xs @ [x]) ! j)) \<noteq> h)"
      then obtain i where i: "i < length (xs @ [x])" "short_pair ((xs @ [x]) ! i) = (h, v)"
        "\<forall>j < length (xs @ [x]). i < j \<longrightarrow> fst (short_pair ((xs @ [x]) ! j)) \<noteq> h" by blast
      have "\<not> i < length xs"
      proof
        assume "i < length xs"
        with i(3)[rule_format, of "length xs"]
        have "fst (short_pair ((xs @ [x]) ! length xs)) \<noteq> h" by simp
        with True show False by (simp add: short_pair_def)
      qed
      with i(1) have "i = length xs" by simp
      with i(2) show "v = take 12 (snd x)" by (simp add: short_pair_def)
    next
      assume "v = take 12 (snd x)"
      with True show "\<exists>i < length (xs @ [x]). short_pair ((xs @ [x]) ! i) = (h, v) \<and>
        (\<forall>j < length (xs @ [x]). i < j \<longrightarrow> fst (short_pair ((xs @ [x]) ! j)) \<noteq> h)"
        by (intro exI[of _ "length xs"]) (simp add: short_pair_def)
    qed
    ultimately show ?thesis by auto
  next
    case False
    have "foldl upd_pair Map.empty (xs @ [x]) h = foldl upd_pair Map.empty xs h"
      using False by (cases x) simp
    moreover have "(\<exists>i < length (xs @ [x]). short_pair ((xs @ [x]) ! i) = (h, v) \<and>
        (\<forall>j < length (xs @ [x]). i < j \<longrightarrow> fst (short_pair ((xs @ [x]) ! j)) \<noteq> h))
        \<longleftrightarrow> (\<exists>i < length xs. short_pair (xs ! i) = (h, v) \<and>
        (\<forall>j < length xs. i < j \<longrightarrow> fst (short_pair (xs ! j)) \<noteq> h))"
      (is "?L \<longleftrightarrow> ?R")
    proof
      assume ?L
      then obtain i where i: "i < length (xs @ [x])" "short_pair ((xs @ [x]) ! i) = (h, v)"
        "\<forall>j < length (xs @ [x]). i < j \<longrightarrow> fst (short_pair ((xs @ [x]) ! j)) \<noteq> h" by blast
      have "i \<noteq> length xs" using i(2) False by (auto simp: short_pair_def)
      with i(1) have il: "i < length xs" by simp
      have "short_pair (xs ! i) = (h, v)" using i(2) il by (simp add: nth_append)
      moreover have "\<forall>j < length xs. i < j \<longrightarrow> fst (short_pair (xs ! j)) \<noteq> h"
      proof (intro allI impI)
        fix j assume j: "j < length xs" "i < j"
        then have "fst (short_pair ((xs @ [x]) ! j)) \<noteq> h" using i(3) by simp
        with j(1) show "fst (short_pair (xs ! j)) \<noteq> h" by (simp add: nth_append)
      qed
      ultimately show ?R using il by blast
    next
      assume ?R
      then obtain i where i: "i < length xs" "short_pair (xs ! i) = (h, v)"
        "\<forall>j < length xs. i < j \<longrightarrow> fst (short_pair (xs ! j)) \<noteq> h" by blast
      have "short_pair ((xs @ [x]) ! i) = (h, v)" using i by (simp add: nth_append)
      moreover have "\<forall>j < length (xs @ [x]). i < j \<longrightarrow> fst (short_pair ((xs @ [x]) ! j)) \<noteq> h"
      proof (intro allI impI)
        fix j assume j: "j < length (xs @ [x])" "i < j"
        show "fst (short_pair ((xs @ [x]) ! j)) \<noteq> h"
        proof (cases "j < length xs")
          case True
          with i(3) j(2) show ?thesis by (simp add: nth_append)
        next
          case False
          with j(1) have "j = length xs" by simp
          with \<open>take 12 (fst x) \<noteq> h\<close> show ?thesis by (simp add: short_pair_def)
        qed
      qed
      ultimately show ?L using i(1) by (intro exI[of _ i]) simp
    qed
    ultimately show ?thesis using snoc.IH by simp
  qed
qed

lemma list_all_zip_nth:
  "list_all long_pair (zip olds news) \<longleftrightarrow>
     (\<forall>i < min (length olds) (length news). 12 \<le> length (olds ! i) \<and> 12 \<le> length (news ! i))"
  by (auto simp: list_all_length)

lemma containerMap_closed:
  "containerMap olds news =
     (if list_all long_pair (zip olds news) then Inr (foldl upd_pair Map.empty (zip olds news))
      else Inl Panic)"
  unfolding containerMap_def by (rule containerMap_loop_closed)

lemma UpdateConfig_doc_Inr:
  "UpdateConfig_doc olds news config = Inr config' \<Longrightarrow>
     list_all long_pair (zip olds news) \<and>
     config' = patch_config (foldl upd_pair Map.empty (zip olds news)) config"
  by (auto simp: UpdateConfig_doc_def containerMap_closed split: if_splits)

lemma paired_lookup:
  "foldl upd_pair Map.empty (zip olds news) h = Some v \<longleftrightarrow>
     (\<exists>i < min (length olds) (length news). take 12 (olds ! i) = h \<and> v = take 12 (news ! i) \<and>
        (\<forall>j < min (length olds) (length news). i < j \<longrightarrow> take 12 (olds ! j) \<noteq> h))"
  unfolding foldl_upd_pair_lookup by (auto simp: short_pair_def)

lemma dom_foldl_upd_pair:
  "dom (foldl upd_pair m ps) = dom m \<union> (\<lambda>p. take 12 (fst p)) ` set ps"
proof (induction ps arbitrary: m)
  case Nil
  then show ?case by simp
next
  case (Cons p ps)
  obtain oldID newID where p: "p = (oldID, newID)" by (cases p)
  define m' where "m' = m(take 12 oldID \<mapsto> take 12 newID)"
  have f: "foldl upd_pair m ((oldID, newID) # ps) = foldl upd_pair m' ps"
    unfolding m'_def by simp
  have d: "dom m' = insert (take 12 oldID) (dom m)"
    unfolding m'_def by simp
  show ?case unfolding p f Cons.IH [of m'] d by auto
qed

lemma paired_lookup_None:
  "foldl upd_pair Map.empty (zip olds news) h = None \<longleftrightarrow>
     (\<forall>i < min (length olds) (length news). take 12 (olds ! i) \<noteq> h)"
proof -
  have "foldl upd_pair Map.empty (zip olds news) h = None \<longleftrightarrow>
        h \<notin> (\<lambda>p. take 12 (fst p)) ` set (zip olds news)"
    using dom_foldl_upd_pair [of Map.empty "zip olds news"] by (auto simp: domIff)
  also have "\<dots> \<longleftrightarrow> (\<forall>i < min (length olds) (length news). take 12 (olds ! i) \<noteq> h)"
    by (auto simp: set_zip image_iff)
  finally show ?thesis .
qed

text \<open>
  Claim C10. \<open>UpdateConfig\<close> slices the first 12 bytes of both identifiers of every
  pair (the pairs are the positions below the length of the shorter list). If every
  paired identifier has at least 12 bytes, the patching of the parsed document returns
  a document: the panic is unreachable. If some paired identifier is shorter, the
  result is the panic.
\<close>

theorem UpdateConfig_total_iff_long_ids:
  "((\<forall>i < min (length oldContainers) (length newContainers).
        12 \<le> length (oldContainers ! i) \<and> 12 \<le> length (newContainers ! i))
      \<longrightarrow> (\<exists>config'. UpdateConfig_doc oldContainers newContainers config = Inr config')) \<and>
   ((\<exists>i < min (length oldContainers) (length newContainers).
        length (oldContainers ! i) < 12 \<or> length (newContainers ! i) < 12)
      \<longrightarrow> UpdateConfig_doc oldContainers newContainers config = Inl Panic)"
proof (cases "list_all long_pair (zip oldContainers newContainers)")
  case True
  then have "\<exists>config'. UpdateConfig_doc oldContainers newContainers config = Inr config'"
    by (simp add: UpdateConfig_doc_def containerMap_closed)
  moreover have "\<not> (\<exists>i < min (length oldContainers) (length newContainers).
        length (oldContainers ! i) < 12 \<or> length (newContainers ! i) < 12)"
    using True unfolding list_all_zip_nth by (auto simp: not_less)
  ultimately show ?thesis by blast
next
  case False
  then have "UpdateConfig_doc oldContainers newContainers config = Inl Panic"
    by (simp add: UpdateConfig_doc_def containerMap_closed)
  moreover have "\<not> (\<forall>i < min (length oldContainers) (length newContainers).
        12 \<le> length (oldContainers ! i) \<and> 12 \<le> length (newContainers ! i))"
    using False unfolding list_all_zip_nth by blast
  ultimately show ?thesis by blast
qed

theorem UpdateConfig_total_iff_long_ids_witness:
  "(\<exists>config'. UpdateConfig_doc [''0123456789abcdef''] [''fedcba9876543210'']
       \<lparr>Routers = Map.empty, Services = Map.empty\<rparr> = Inr config') \<and>
   UpdateConfig_doc [''0123456789abcdef'', ''0123''] [''fedcba9876543210'', ''fedcba9876543210'']
       \<lparr>Routers = Map.empty, Services = Map.empty\<rparr> = Inl Panic"
proof -
  have a: "\<forall>i < min (length [''0123456789abcdef'']) (length [''fedcba9876543210'']).
        12 \<le> length ([''0123456789abcdef''] ! i) \<and> 12 \<le> length ([''fedcba9876543210''] ! i)"
    by simp
  have b: "\<exists>i < min (length [''0123456789abcdef'', ''0123''])
                    (length [''fedcba9876543210'', ''fedcba9876543210'']).
        length ([''0123456789abcdef'', ''0123''] ! i) < 12 \<or>
        length ([''fedcba9876543210'', ''fedcba9876543210''] ! i) < 12"
    by (rule exI[of _ 1]) simp
  from UpdateConfig_total_iff_long_ids
         [of "[''0123456789abcdef'']" "[''fedcba9876543210'']"
             "\<lparr>Routers = Map.empty, Services = Map.empty\<rparr>"] a
  have 1: "\<exists>config'. UpdateConfig_doc [''0123456789abcdef''] [''fedcba9876543210'']
       \<lparr>Routers = Map.empty, Services = Map.empty\<rparr> = Inr config'" by blast
  from UpdateConfig_total_iff_long_ids
         [of "[''0123456789abcdef'', ''0123'']" "[''fedcba9876543210'', ''fedcba9876543210'']"
             "\<lparr>Routers = Map.empty, Services = Map.empty\<rparr>"] b
  have 2: "UpdateConfig_doc [''0123456789abcdef'', ''0123''] [''fedcba9876543210'', ''fedcba9876543210'']
       \<lparr>Routers = Map.empty, Services = Map.empty\<rparr> = Inl Panic" by blast
  from 1 2 show ?thesis by blast
qed

subsection \<open>Which addresses are rewritten\<close>

lemma cut_append: "cut sep s = Some (b, a) \<Longrightarrow> s = b @ sep @ a"
proof (induction s arbitrary: b a)
  case Nil
  then show ?case by (simp split: if_splits)
next
  case (Cons c cs)
  show ?case
  proof (cases "prefix sep (c # cs)")
    case True
    with Cons.prems have "b = []" "a = drop (length sep) (c # cs)" by simp_all
    moreover from True have "c # cs = sep @ drop (length sep) (c # cs)"
      by (metis append_eq_conv_conj prefix_def)
    ultimately show ?thesis by simp
  next
    case False
    with Cons.prems obtain b' where b': "cut sep cs = Some (b', a)" "b = c # b'"
      by (auto split: option.splits)
    with Cons.IH show ?thesis by simp
  qed
qed

lemma cut_single_notin_before: "cut [c] s = Some (b, a) \<Longrightarrow> c \<notin> set b"
proof (induction s arbitrary: b a)
  case Nil
  then show ?case by simp
next
  case (Cons x xs)
  then show ?case by (auto split: if_splits option.splits)
qed

lemma cut_single_None: "cut [c] s = None \<Longrightarrow> c \<notin> set s"
proof (induction s)
  case Nil
  then show ?case by simp
next
  case (Cons x xs)
  then show ?case by (auto split: if_splits option.splits)
qed

lemma Split_nonempty: "sep \<noteq> [] \<Longrightarrow> Split s sep \<noteq> []"
  by (subst Split.simps) (simp split: option.splits)

lemma Split_two:
  assumes "Split s sep = [x, y]" and "sep \<noteq> []"
  shows "s = x @ sep @ y \<and> cut sep s = Some (x, y) \<and> cut sep y = None"
proof -
  from assms obtain a where c1: "cut sep s = Some (x, a)" and r: "Split a sep = [y]"
    by (subst (asm) Split.simps) (auto split: option.splits)
  from r assms(2) have "cut sep a = None \<and> a = y"
    by (subst (asm) Split.simps) (auto split: option.splits simp: Split_nonempty)
  then have a: "a = y" and n0: "cut sep a = None" by blast+
  from n0 have n: "cut sep y = None" unfolding a .
  from c1 a have c: "cut sep s = Some (x, y)" by simp
  from cut_append[OF c] c n show ?thesis by blast
qed

lemma parse_url_shape:
  assumes "parse_url url = Some (h, p)"
  shows "\<exists>scheme. url = scheme @ ''//'' @ h @ '':'' @ p \<and> CHR '':'' \<notin> set h \<and> CHR '':'' \<notin> set p"
proof -
  from assms obtain p0 p1 where s1: "Split url ''//'' = [p0, p1]" and s2: "Split p1 '':'' = [h, p]"
    unfolding parse_url_def by (auto split: list.splits)
  from Split_two[OF s1] have u: "url = p0 @ ''//'' @ p1" by simp
  have t2: "p1 = h @ '':'' @ p \<and> cut '':'' p1 = Some (h, p) \<and> cut '':'' p = None"
    by (rule Split_two[OF s2]) simp
  then have p1: "p1 = h @ '':'' @ p" and c: "cut '':'' p1 = Some (h, p)"
    and n: "cut '':'' p = None" by blast+
  from cut_single_notin_before[OF c] have "CHR '':'' \<notin> set h" .
  moreover from cut_single_None[OF n] have "CHR '':'' \<notin> set p" .
  ultimately show ?thesis using u p1 by auto
qed

lemma parse_url_example: "parse_url ''http://0123456789ab:80'' = Some (''0123456789ab'', ''80'')"
  by (simp add: parse_url_def Split.simps)

lemma parse_url_example_no_port: "parse_url ''http://0123456789ab'' = None"
  by (simp add: parse_url_def Split.simps)

lemma patch_url_paired:
  assumes cm: "cm = foldl upd_pair Map.empty (zip oldIds newIds)"
    and ps: "parse_url url = Some (h, port)"
  shows "((\<forall>i < min (length oldIds) (length newIds). take 12 (oldIds ! i) \<noteq> h) \<longrightarrow>
                 patch_url cm url = url) \<and>
              ((\<exists>i < min (length oldIds) (length newIds). take 12 (oldIds ! i) = h) \<longrightarrow>
                 (\<exists>i < min (length oldIds) (length newIds).
                    take 12 (oldIds ! i) = h \<and>
                    (\<forall>j < min (length oldIds) (length newIds). i < j \<longrightarrow> take 12 (oldIds ! j) \<noteq> h) \<and>
                    patch_url cm url = ''http://'' @ take 12 (newIds ! i) @ '':'' @ port))"
proof (intro conjI impI)
  assume "\<forall>i < min (length oldIds) (length newIds). take 12 (oldIds ! i) \<noteq> h"
  then have "cm h = None" unfolding cm paired_lookup_None .
  then show "patch_url cm url = url" using ps by (simp add: patch_url_def)
next
  assume "\<exists>i < min (length oldIds) (length newIds). take 12 (oldIds ! i) = h"
  then have "cm h \<noteq> None" unfolding cm paired_lookup_None by blast
  then obtain v where v: "cm h = Some v" by blast
  from v [unfolded cm paired_lookup]
  obtain i where i: "i < min (length oldIds) (length newIds)" "take 12 (oldIds ! i) = h"
        "v = take 12 (newIds ! i)"
        "\<forall>j < min (length oldIds) (length newIds). i < j \<longrightarrow> take 12 (oldIds ! j) \<noteq> h"
    by blast
  have u: "patch_url cm url = ''http://'' @ take 12 (newIds ! i) @ '':'' @ port"
    using ps v i(3) by (simp add: patch_url_def)
  show "\<exists>i < min (length oldIds) (length newIds).
                    take 12 (oldIds ! i) = h \<and>
                    (\<forall>j < min (length oldIds) (length newIds). i < j \<longrightarrow> take 12 (oldIds ! j) \<noteq> h) \<and>
                    patch_url cm url = ''http://'' @ take 12 (newIds ! i) @ '':'' @ port"
    using i(1) i(2) i(4) u by (intro exI[of _ i] conjI)
qed

text \<open>
  Claim C6. Take a run of the Patcher that returns a document (by C10: every paired
  identifier has 12 bytes or more), any service of the document that was read and any
  position \<open>k\<close> in its server list. The service is still there with as many servers,
  and the address at \<open>k\<close>
  \<^item> is unchanged when the two splits do not give \<open>scheme//id:port\<close> (no error is raised);
  \<^item> is unchanged when it parses but its identifier is the short form of no
    \<open>oldIds[i]\<close> with \<open>i < min(len(oldIds), len(newIds))\<close>, so the tail of the longer
    list plays no role;
  \<^item> is \<open>http://\<close>, the short form of \<open>newIds[i]\<close>, \<open>:\<close> and the old port when its
    identifier is the short form of \<open>oldIds[i]\<close> for such an \<open>i\<close> (the last one, if
    several old identifiers share a short form).
  By \<open>parse_url_shape\<close> an address that parses is \<open>scheme//id:port\<close> with no colon in
  \<open>id\<close> and \<open>port\<close>.
\<close>

theorem UpdateConfig_rewrites_paired_ids:
  assumes "UpdateConfig_doc oldIds newIds config = Inr config'"
    and "Services config name = Some service"
    and "k < length (Servers (LoadBalancer service))"
  shows "\<exists>service'. Services config' name = Some service' \<and>
           length (Servers (LoadBalancer service')) = length (Servers (LoadBalancer service)) \<and>
           (parse_url (URL (Servers (LoadBalancer service) ! k)) = None \<longrightarrow>
              URL (Servers (LoadBalancer service') ! k) = URL (Servers (LoadBalancer service) ! k)) \<and>
           (\<forall>h port. parse_url (URL (Servers (LoadBalancer service) ! k)) = Some (h, port) \<longrightarrow>
              ((\<forall>i < min (length oldIds) (length newIds). take 12 (oldIds ! i) \<noteq> h) \<longrightarrow>
                 URL (Servers (LoadBalancer service') ! k) = URL (Servers (LoadBalancer service) ! k)) \<and>
              ((\<exists>i < min (length oldIds) (length newIds). take 12 (oldIds ! i) = h) \<longrightarrow>
                 (\<exists>i < min (length oldIds) (length newIds).
                    take 12 (oldIds ! i) = h \<and>
                    (\<forall>j < min (length oldIds) (length newIds). i < j \<longrightarrow> take 12 (oldIds ! j) \<noteq> h) \<and>
                    URL (Servers (LoadBalancer service') ! k) =
                      ''http://'' @ take 12 (newIds ! i) @ '':'' @ port)))"
proof -
  define cm where "cm = foldl upd_pair Map.empty (zip oldIds newIds)"
  let ?url = "URL (Servers (LoadBalancer service) ! k)"
  from UpdateConfig_doc_Inr[OF assms(1)] have c': "config' = patch_config cm config"
    by (simp add: cm_def)
  have s': "Services config' name = Some (patch_service cm service)"
    using assms(2) by (simp add: c' patch_config_def)
  have len: "length (Servers (LoadBalancer (patch_service cm service))) =
             length (Servers (LoadBalancer service))"
    by (simp add: patch_service_def)
  have u': "URL (Servers (LoadBalancer (patch_service cm service)) ! k) = patch_url cm ?url"
    using assms(3) by (simp add: patch_service_def patch_server_def)
  show ?thesis
  proof (intro exI[of _ "patch_service cm service"] conjI allI impI)
    show "Services config' name = Some (patch_service cm service)" by (rule s')
    show "length (Servers (LoadBalancer (patch_service cm service))) =
             length (Servers (LoadBalancer service))" by (rule len)
  next
    assume "parse_url ?url = None"
    then show "URL (Servers (LoadBalancer (patch_service cm service)) ! k) = ?url"
      unfolding u' by (simp add: patch_url_def)
  next
    fix h port
    assume ps: "parse_url ?url = Some (h, port)"
      and "\<forall>i < min (length oldIds) (length newIds). take 12 (oldIds ! i) \<noteq> h"
    then show "URL (Servers (LoadBalancer (patch_service cm service)) ! k) = ?url"
      unfolding u' using patch_url_paired [OF cm_def ps] by blast
  next
    fix h port
    assume ps: "parse_url ?url = Some (h, port)"
      and "\<exists>i < min (length oldIds) (length newIds). take 12 (oldIds ! i) = h"
    then show "\<exists>i < min (length oldIds) (length newIds).
                    take 12 (oldIds ! i) = h \<and>
                    (\<forall>j < min (length oldIds) (length newIds). i < j \<longrightarrow> take 12 (oldIds ! j) \<noteq> h) \<and>
                    URL (Servers (LoadBalancer (patch_service cm service)) ! k) =
                      ''http://'' @ take 12 (newIds ! i) @ '':'' @ port"
      unfolding u' using patch_url_paired [OF cm_def ps] by blast
  qed
qed

lemma example_update:
  "UpdateConfig_doc [''aaaaaaaaaaaa1111'', ''bbbbbbbbbbbb2222''] [''cccccccccccc3333''] example_config =
     Inr (patch_config [''aaaaaaaaaaaa'' \<mapsto> ''cccccccccccc''] example_config)"
  by (simp add: UpdateConfig_doc_def containerMap_def)

theorem UpdateConfig_rewrites_paired_ids_witness:
  "UpdateConfig_doc [''aaaaaaaaaaaa1111'', ''bbbbbbbbbbbb2222''] [''cccccccccccc3333''] example_config =
     Inr (patch_config [''aaaaaaaaaaaa'' \<mapsto> ''cccccccccccc''] example_config) \<and>
   Services example_config ''api'' = Some example_service \<and>
   (0::nat) < length (Servers (LoadBalancer example_service)) \<and>
   URL (Servers (LoadBalancer
      (the (Services (patch_config [''aaaaaaaaaaaa'' \<mapsto> ''cccccccccccc''] example_config) ''api''))) ! 0) =
     ''http://cccccccccccc:80''"
proof -
  have h2: "Services example_config ''api'' = Some example_service"
    by (simp add: example_config_def)
  have h3: "(0::nat) < length (Servers (LoadBalancer example_service))"
    by (simp add: example_service_def)
  have ps: "parse_url (URL (Servers (LoadBalancer example_service) ! 0)) =
              Some (''aaaaaaaaaaaa'', ''80'')"
    by (simp add: example_service_def parse_url_def Split.simps)
  have ex: "\<exists>i < min (length [''aaaaaaaaaaaa1111'', ''bbbbbbbbbbbb2222''])
                      (length [''cccccccccccc3333'']).
              take 12 ([''aaaaaaaaaaaa1111'', ''bbbbbbbbbbbb2222''] ! i) = ''aaaaaaaaaaaa''"
    by (rule exI[of _ 0]) simp
  from UpdateConfig_rewrites_paired_ids [OF example_update h2 h3]
  obtain service' where
    s: "Services (patch_config [''aaaaaaaaaaaa'' \<mapsto> ''cccccccccccc''] example_config) ''api'' =
          Some service'"
    and r: "\<forall>h port. parse_url (URL (Servers (LoadBalancer example_service) ! 0)) = Some (h, port) \<longrightarrow>
              ((\<forall>i < min (length [''aaaaaaaaaaaa1111'', ''bbbbbbbbbbbb2222''])
                          (length [''cccccccccccc3333'']).
                    take 12 ([''aaaaaaaaaaaa1111'', ''bbbbbbbbbbbb2222''] ! i) \<noteq> h) \<longrightarrow>
                 URL (Servers (LoadBalancer service') ! 0) =
                   URL (Servers (LoadBalancer example_service) ! 0)) \<and>
              ((\<exists>i < min (length [''aaaaaaaaaaaa1111'', ''bbbbbbbbbbbb2222''])
                          (length [''cccccccccccc3333'']).
                    take 12 ([''aaaaaaaaaaaa1111'', ''bbbbbbbbbbbb2222''] ! i) = h) \<longrightarrow>
                 (\<exists>i < min (length [''aaaaaaaaaaaa1111'', ''bbbbbbbbbbbb2222''])
                           (length [''cccccccccccc3333'']).
                    take 12 ([''aaaaaaaaaaaa1111'', ''bbbbbbbbbbbb2222''] ! i) = h \<and>
                    (\<forall>j < min (length [''aaaaaaaaaaaa1111'', ''bbbbbbbbbbbb2222''])
                              (length [''cccccccccccc3333'']).
                        i < j \<longrightarrow> take 12 ([''aaaaaaaaaaaa1111'', ''bbbbbbbbbbbb2222''] ! j) \<noteq> h) \<and>
                    URL (Servers (LoadBalancer service') ! 0) =
                      ''http://'' @ take 12 ([''cccccccccccc3333''] ! i) @ '':'' @ port))"
    by blast
  from r ps ex obtain i where
    i: "i < min (length [''aaaaaaaaaaaa1111'', ''bbbbbbbbbbbb2222'']) (length [''cccccccccccc3333''])"
    and u: "URL (Servers (LoadBalancer service') ! 0) =
              ''http://'' @ take 12 ([''cccccccccccc3333''] ! i) @ '':'' @ ''80''"
    by blast
  from i have "i = 0" by simp
  with u have "URL (Servers (LoadBalancer service') ! 0) = ''http://cccccccccccc:80''" by simp
  with s example_update h2 h3 show ?thesis by simp
qed

subsection \<open>What the Patcher leaves alone\<close>





section \<open>Properties of the Synthesizer\<close>

lemma label_absent:
  assumes "\<not> list_ex (\<lambda>(key, val). prefix pre key) labels"
  shows "label labels (pre @ sfx) = []"
proof -
  have "pre @ sfx \<notin> fst ` set labels"
  proof
    assume "pre @ sfx \<in> fst ` set labels"
    then obtain v where "(pre @ sfx, v) \<in> set labels" by auto
    with assms show False by (auto simp: list_ex_iff)
  qed
  then have "map_of labels (pre @ sfx) = None" by (simp add: map_of_eq_None_iff)
  then show ?thesis by (simp add: label_def)
qed

lemma headers_loop_no_keys:
  "\<not> list_ex (\<lambda>(key, val). prefix pre key) labels \<Longrightarrow> headers_loop json pre labels headers = Inr headers"
proof (induction labels arbitrary: headers)
  case Nil
  then show ?case by simp
next
  case (Cons kv labels)
  obtain key val where kv: "kv = (key, val)" by (cases kv)
  from Cons.prems have nk: "\<not> prefix pre key" and rest: "\<not> list_ex (\<lambda>(key, val). prefix pre key) labels"
    by (simp_all add: kv)
  from nk have "key \<noteq> pre @ ''.headers''" by auto
  moreover from nk have "\<not> prefix (pre @ ''.headers.'') key"
    by (meson append_prefixD)
  ultimately show ?case using Cons.IH [OF rest] by (simp add: kv)
qed

lemma hasValues_label_fields:
  "hasValues (label_fields labels pre headers) = label_fields_nonempty labels pre headers"
  by (simp add: hasValues_def label_fields_def label_fields_nonempty_def gomap_len_pos_def)

lemma service_healthCheck_char:
  assumes "service_healthCheck json labels serviceName = Inr r"
  shows "\<exists>headers. headers_loop json (healthCheck_prefix serviceName) labels (Some Map.empty) = Inr headers \<and>
           r = (if label_fields_nonempty labels (healthCheck_prefix serviceName) headers
                then Some (label_fields labels (healthCheck_prefix serviceName) headers) else None)"
proof (cases "list_ex (\<lambda>(key, val). prefix (healthCheck_prefix serviceName) key) labels")
  case False
  have h: "headers_loop json (healthCheck_prefix serviceName) labels (Some Map.empty) = Inr (Some Map.empty)"
    by (rule headers_loop_no_keys [OF False])
  have e: "\<not> label_fields_nonempty labels (healthCheck_prefix serviceName) (Some Map.empty)"
    by (simp add: label_fields_nonempty_def label_absent [OF False] gomap_len_pos_def)
  from assms False have "r = None"
    by (simp add: service_healthCheck_def extractHealthCheck_def Let_def)
  with h e show ?thesis by simp
next
  case True
  with assms obtain headers where
    h: "headers_loop json (healthCheck_prefix serviceName) labels (Some Map.empty) = Inr headers"
    by (cases "headers_loop json (healthCheck_prefix serviceName) labels (Some Map.empty)")
       (auto simp: service_healthCheck_def extractHealthCheck_def Let_def)
  from True h have x: "extractHealthCheck json labels serviceName =
      Inr (Some (label_fields labels (healthCheck_prefix serviceName) headers))"
    by (simp add: extractHealthCheck_def label_fields_def Let_def)
  from assms have "r = (if hasValues (label_fields labels (healthCheck_prefix serviceName) headers)
      then Some (label_fields labels (healthCheck_prefix serviceName) headers) else None)"
    unfolding service_healthCheck_def x by simp
  with h show ?thesis unfolding hasValues_label_fields by blast
qed

lemma service_healthCheck_hasValues:
  "service_healthCheck json labels serviceName = Inr (Some healthCheck) \<Longrightarrow> hasValues healthCheck"
  by (auto simp: service_healthCheck_def split: sum.splits option.splits if_splits)

lemma process_service_healthCheck:
  assumes "process_service json serviceName serviceContainers = Inr (Some (router, service))"
  shows "\<exists>container rest. serviceContainers = container # rest \<and>
           service_healthCheck json (Labels container) serviceName =
             Inr (HealthCheck (LoadBalancer service))"
proof (cases serviceContainers)
  case Nil
  with assms show ?thesis by (simp add: process_service_def)
next
  case (Cons container rest)
  with assms show ?thesis
    by (auto simp: process_service_def Let_def split: if_splits sum.splits)
qed

lemma services_loop_inv:
  assumes "services_loop json groups names config = Inr config'"
    and "\<forall>name service. Services config name = Some service \<longrightarrow>
           (\<exists>router. process_service json name (groups name) = Inr (Some (router, service)))"
  shows "\<forall>name service. Services config' name = Some service \<longrightarrow>
           (\<exists>router. process_service json name (groups name) = Inr (Some (router, service)))"
  using assms
proof (induction names arbitrary: config)
  case Nil
  then show ?case by simp
next
  case (Cons serviceName rest)
  show ?case
  proof (cases "process_service json serviceName (groups serviceName)")
    case (Inl e)
    with Cons.prems(1) show ?thesis by simp
  next
    case (Inr res)
    show ?thesis
    proof (cases res)
      case None
      with Inr Cons.prems have "services_loop json groups rest config = Inr config'" by simp
      from Cons.IH [OF this Cons.prems(2)] show ?thesis .
    next
      case (Some rs)
      obtain router service where rs: "rs = (router, service)" by (cases rs)
      define config1 where "config1 = config\<lparr>Routers := (Routers config)(serviceName \<mapsto> router),
                    Services := (Services config)(serviceName \<mapsto> service)\<rparr>"
      from Inr Some rs Cons.prems(1) have l: "services_loop json groups rest config1 = Inr config'"
        by (simp add: config1_def)
      have "\<forall>name service. Services config1 name = Some service \<longrightarrow>
           (\<exists>router. process_service json name (groups name) = Inr (Some (router, service)))"
        using Cons.prems(2) Inr Some rs by (auto simp: config1_def)
      from Cons.IH [OF l this] show ?thesis .
    qed
  qed
qed

lemma example_headers:
  "headers_loop (\<lambda>v. JSONError) (healthCheck_prefix ''api'') (Labels example_container) (Some Map.empty)
     = Inr (Some [''X-Probe'' \<mapsto> ''1''])"
  by (simp add: example_container_def healthCheck_prefix_def)

lemma example_service_healthCheck:
  "service_healthCheck (\<lambda>v. JSONError) (Labels example_container) ''api''
     = Inr (Some example_healthCheck)"
  unfolding service_healthCheck_def extractHealthCheck_def Let_def example_headers
  by (simp add: example_container_def healthCheck_prefix_def label_def hasValues_def
        gomap_len_pos_def example_healthCheck_def)

lemma example_GenerateConfig_doc:
  "GenerateConfig_doc (\<lambda>v. JSONError) (\<lambda>n. n = ''api'') [example_container] = Inr example_generated"
proof -
  have k: "service_keys (\<lambda>n. n = ''api'') [example_container] = [''api'']"
    by (simp add: service_keys_def compose_service_of_def List.map_filter_simps label_def
          example_container_def)
  have g: "service_group (\<lambda>n. n = ''api'') [example_container] ''api'' = [example_container]"
    by (simp add: service_group_def compose_service_of_def label_def example_container_def)
  have p: "process_service (\<lambda>v. JSONError) ''api'' [example_container] =
      Inr (Some (\<lparr>Rule = ''Host(a.com)'', Service = ''api''\<rparr>,
                 \<lparr>LoadBalancer = \<lparr>Servers = [\<lparr>URL = ''http://0123456789ab:80''\<rparr>],
                          HealthCheck = Some example_healthCheck\<rparr>\<rparr>))"
  proof -
    have l1: "label (Labels example_container) ''traefik.enable'' = ''true''"
      by (simp add: label_def example_container_def)
    have l2: "label (Labels example_container) (''traefik.http.routers.'' @ ''api'' @ ''.rule'') =
                ''Host(a.com)''"
      by (simp add: label_def example_container_def)
    have l3: "label (Labels example_container)
                (''traefik.http.services.'' @ ''api'' @ ''.loadbalancer.server.port'') = []"
      by (simp add: label_def example_container_def)
    have i: "ID example_container = ''0123456789abcdef''"
      by (simp add: example_container_def)
    show ?thesis
      by (simp add: process_service_def Let_def l1 l2 l3 i example_service_healthCheck
            del: append.simps)
  qed
  show ?thesis
    unfolding GenerateConfig_doc_def k
    by (simp add: g p example_generated_def)
qed

text \<open>
  Claim C8. For every service that \<open>GenerateConfig\<close> puts in the document, with
  \<open>container\<close> the first container of the service: the health check of the service is
  present exactly when one of the ten labels \<open>path\<close>, \<open>interval\<close>, \<open>timeout\<close>, \<open>scheme\<close>,
  \<open>mode\<close>, \<open>hostname\<close>, \<open>port\<close>, \<open>followRedirects\<close>, \<open>method\<close>, \<open>status\<close> under the
  health-check prefix is non-empty or the extracted header map has an entry; when it is
  present each of its fields is the value of its label (empty, and so left out by
  \<open>omitempty\<close>, when the label is empty or absent) and its headers are the extracted
  map; and a health check that is present always has a non-empty field.
\<close>

theorem healthCheck_attached_iff_nonempty:
  "GenerateConfig_doc json composeServices containers = Inr config \<and>
   Services config name = Some service \<longrightarrow>
     (\<exists>container rest headers.
        service_group composeServices containers name = container # rest \<and>
        headers_loop json (healthCheck_prefix name) (Labels container) (Some Map.empty) = Inr headers \<and>
        HealthCheck (LoadBalancer service) =
          (if label_fields_nonempty (Labels container) (healthCheck_prefix name) headers
           then Some (label_fields (Labels container) (healthCheck_prefix name) headers)
           else None)) \<and>
     (\<forall>healthCheck. HealthCheck (LoadBalancer service) = Some healthCheck \<longrightarrow> hasValues healthCheck)"
proof (intro impI, elim conjE)
  assume g: "GenerateConfig_doc json composeServices containers = Inr config"
    and s: "Services config name = Some service"
  have "\<forall>name service. Services config name = Some service \<longrightarrow>
           (\<exists>router. process_service json name (service_group composeServices containers name) =
              Inr (Some (router, service)))"
    by (rule services_loop_inv [OF g [unfolded GenerateConfig_doc_def]]) simp
  with s obtain router where
    p: "process_service json name (service_group composeServices containers name) =
          Inr (Some (router, service))" by blast
  from process_service_healthCheck [OF p] obtain container rest where
    c: "service_group composeServices containers name = container # rest"
    and h: "service_healthCheck json (Labels container) name = Inr (HealthCheck (LoadBalancer service))"
    by blast
  from service_healthCheck_char [OF h] obtain headers where
    hl: "headers_loop json (healthCheck_prefix name) (Labels container) (Some Map.empty) = Inr headers"
    and r: "HealthCheck (LoadBalancer service) =
          (if label_fields_nonempty (Labels container) (healthCheck_prefix name) headers
           then Some (label_fields (Labels container) (healthCheck_prefix name) headers)
           else None)" by blast
  have v: "\<forall>healthCheck. HealthCheck (LoadBalancer service) = Some healthCheck \<longrightarrow> hasValues healthCheck"
    using h by (auto dest: service_healthCheck_hasValues)
  from c hl r v show "(\<exists>container rest headers.
        service_group composeServices containers name = container # rest \<and>
        headers_loop json (healthCheck_prefix name) (Labels container) (Some Map.empty) = Inr headers \<and>
        HealthCheck (LoadBalancer service) =
          (if label_fields_nonempty (Labels container) (healthCheck_prefix name) headers
           then Some (label_fields (Labels container) (healthCheck_prefix name) headers)
           else None)) \<and>
     (\<forall>healthCheck. HealthCheck (LoadBalancer service) = Some healthCheck \<longrightarrow> hasValues healthCheck)"
    by blast
qed

theorem healthCheck_attached_iff_nonempty_witness:
  "GenerateConfig_doc (\<lambda>v. JSONError) (\<lambda>n. n = ''api'') [example_container] = Inr example_generated \<and>
   Services example_generated ''api'' =
     Some \<lparr>LoadBalancer = \<lparr>Servers = [\<lparr>URL = ''http://0123456789ab:80''\<rparr>],
                            HealthCheck = Some example_healthCheck\<rparr>\<rparr> \<and>
   hasValues example_healthCheck"
proof -
  have s: "Services example_generated ''api'' =
     Some \<lparr>LoadBalancer = \<lparr>Servers = [\<lparr>URL = ''http://0123456789ab:80''\<rparr>],
                            HealthCheck = Some example_healthCheck\<rparr>\<rparr>"
    by (simp add: example_generated_def)
  from healthCheck_attached_iff_nonempty
         [of "\<lambda>v. JSONError" "\<lambda>n. n = ''api''" "[example_container]" example_generated "''api''"
             "\<lparr>LoadBalancer = \<lparr>Servers = [\<lparr>URL = ''http://0123456789ab:80''\<rparr>],
                            HealthCheck = Some example_healthCheck\<rparr>\<rparr>"]
       example_GenerateConfig_doc s
  have "hasValues example_healthCheck" by simp
  with example_GenerateConfig_doc s show ?thesis by blast
qed

section \<open>Properties of the orchestrator\<close>




lemma stop_ids_append: "stop_ids (xs @ ys) = stop_ids xs @ stop_ids ys"
  by (induction xs rule: stop_ids.induct) simp_all

lemma remove_ids_append: "remove_ids (xs @ ys) = remove_ids xs @ remove_ids ys"
  by (induction xs rule: remove_ids.induct) simp_all

lemma stop_ids_inspect: "stop_ids (map EvContainerInspect seen) = []"
  by (induction seen) simp_all

lemma remove_ids_inspect: "remove_ids (map EvContainerInspect seen) = []"
  by (induction seen) simp_all

lemma WaitLoop_no_stop:
  "stop_ids (fst (WaitLoop ins deadline now containerIDs)) = [] \<and>
   remove_ids (fst (WaitLoop ins deadline now containerIDs)) = []"
proof (induction ins deadline now containerIDs rule: WaitLoop.induct)
  case (1 ins deadline now containerIDs)
  show ?case
  proof (cases "now < deadline")
    case False
    then show ?thesis by (simp add: WaitLoop.simps)
  next
    case True
    obtain seen r where p: "poll (ins now) containerIDs = (seen, r)" by (cases "poll (ins now) containerIDs")
    show ?thesis
    proof (cases r)
      case (Inl e)
      with True p show ?thesis
        by (subst (1 2) WaitLoop.simps) (simp add: stop_ids_inspect remove_ids_inspect)
    next
      case (Inr allHealthy)
      show ?thesis
      proof (cases allHealthy)
        case True
        with \<open>now < deadline\<close> p Inr show ?thesis
          by (subst (1 2) WaitLoop.simps) (simp add: stop_ids_inspect remove_ids_inspect)
      next
        case False
        from "1.IH" [OF \<open>now < deadline\<close> p [symmetric] Inr False]
        have ih: "stop_ids (fst (WaitLoop ins deadline (now + second) containerIDs)) = [] \<and>
                  remove_ids (fst (WaitLoop ins deadline (now + second) containerIDs)) = []" .
        obtain evs r' where w: "WaitLoop ins deadline (now + second) containerIDs = (evs, r')"
          by (cases "WaitLoop ins deadline (now + second) containerIDs")
        with ih have "stop_ids evs = []" "remove_ids evs = []" by simp_all
        with \<open>now < deadline\<close> p Inr False w show ?thesis
          by (subst (1 2) WaitLoop.simps)
             (simp add: stop_ids_append remove_ids_append stop_ids_inspect remove_ids_inspect)
      qed
    qed
  qed
qed

lemma StopAndRemove_ids:
  "prefix (stop_ids (fst (StopAndRemoveContainers sf rf ids))) ids \<and>
   prefix (remove_ids (fst (StopAndRemoveContainers sf rf ids))) (stop_ids (fst (StopAndRemoveContainers sf rf ids)))"
proof (induction ids)
  case Nil
  then show ?case by simp
next
  case (Cons containerID rest)
  obtain evs r where s: "StopAndRemoveContainers sf rf rest = (evs, r)"
    by (cases "StopAndRemoveContainers sf rf rest")
  with Cons show ?case by simp
qed


lemma main_reaches_gate:
  assumes up: "ServiceArg config \<noteq> ''up''" "ServiceArg config \<noteq> ''up -d''"
    and l0: "GetServiceContainers (listing0 e) (ServiceArg config) = Inr containers"
    and ne: "containers \<noteq> []"
    and l1: "GetServiceContainers (listing1 e) (ServiceArg config) = Inr oldContainers"
    and sc: "ScaleService (scale_fails e (ServiceArg config) (length containers * 2)) (listing2 e)
               (ServiceArg config) = Inr postScale"
  shows "main config e =
     ([EvGetServiceContainers (ServiceArg config), EvGetServiceContainers (ServiceArg config),
       EvScaleService (ServiceArg config) (length containers * 2)] @
        fst (gate_and_swap config e oldContainers (filteredNewContainers oldContainers postScale)),
      snd (gate_and_swap config e oldContainers (filteredNewContainers oldContainers postScale)))"
  using assms by (simp add: main_def Let_def split: prod.splits)


lemma main_list0_error:
  assumes up: "ServiceArg config \<noteq> ''up''" "ServiceArg config \<noteq> ''up -d''"
    and l0: "GetServiceContainers (listing0 e) (ServiceArg config) = Inl err"
  shows "main config e = ([EvGetServiceContainers (ServiceArg config)], Fatal)"
  using assms by (simp add: main_def Let_def)

lemma main_list1_error:
  assumes up: "ServiceArg config \<noteq> ''up''" "ServiceArg config \<noteq> ''up -d''"
    and l0: "GetServiceContainers (listing0 e) (ServiceArg config) = Inr containers"
    and ne: "containers \<noteq> []"
    and l1: "GetServiceContainers (listing1 e) (ServiceArg config) = Inl err"
  shows "main config e =
     ([EvGetServiceContainers (ServiceArg config), EvGetServiceContainers (ServiceArg config)], Fatal)"
  using assms by (simp add: main_def Let_def)

lemma main_scale_error:
  assumes up: "ServiceArg config \<noteq> ''up''" "ServiceArg config \<noteq> ''up -d''"
    and l0: "GetServiceContainers (listing0 e) (ServiceArg config) = Inr containers"
    and ne: "containers \<noteq> []"
    and l1: "GetServiceContainers (listing1 e) (ServiceArg config) = Inr oldContainers"
    and sc: "ScaleService (scale_fails e (ServiceArg config) (length containers * 2)) (listing2 e)
               (ServiceArg config) = Inl err"
  shows "main config e =
     ([EvGetServiceContainers (ServiceArg config), EvGetServiceContainers (ServiceArg config),
       EvScaleService (ServiceArg config) (length containers * 2)], Fatal)"
  using assms by (simp add: main_def Let_def)

lemma main_not_running:
  assumes up: "ServiceArg config \<noteq> ''up''" "ServiceArg config \<noteq> ''up -d''"
    and l0: "GetServiceContainers (listing0 e) (ServiceArg config) = Inr []"
  shows "snd (main config e) \<noteq> RolledBack"
  using assms by (simp add: main_def Let_def)

lemma gate_and_swap_error:
  assumes "snd (WaitForHealthyContainers (inspect e) (gate_now e) newContainers
                  (HealthcheckTimeout config)) = Some err"
  shows "gate_and_swap config e oldContainers newContainers =
     (fst (WaitForHealthyContainers (inspect e) (gate_now e) newContainers (HealthcheckTimeout config)) @
      fst (StopAndRemoveContainers (stop_fails e) (remove_fails e) newContainers), RolledBack)"
proof -
  obtain gate_evs r where w: "WaitForHealthyContainers (inspect e) (gate_now e) newContainers
                  (HealthcheckTimeout config) = (gate_evs, r)"
    by (cases "WaitForHealthyContainers (inspect e) (gate_now e) newContainers
                  (HealthcheckTimeout config)")
  obtain rollback_evs x where s: "StopAndRemoveContainers (stop_fails e) (remove_fails e)
                  newContainers = (rollback_evs, x)"
    by (cases "StopAndRemoveContainers (stop_fails e) (remove_fails e) newContainers")
  from assms w have "r = Some err" by simp
  with w s show ?thesis by (simp add: gate_and_swap_def)
qed

lemma gate_and_swap_ok:
  assumes "snd (WaitForHealthyContainers (inspect e) (gate_now e) newContainers
                  (HealthcheckTimeout config)) = None"
  shows "gate_and_swap config e oldContainers newContainers =
     (fst (WaitForHealthyContainers (inspect e) (gate_now e) newContainers (HealthcheckTimeout config)) @
      EvUpdateConfig oldContainers newContainers (TraefikConfFile config) #
      (if WaitAfterHealthyDelay config > 0 then [EvSleep (WaitAfterHealthyDelay config)] else []) @
      [EvSleep (NoHealthcheckTimeout config)] @
      fst (StopAndRemoveContainers (stop_fails e) (remove_fails e) oldContainers),
      if snd (StopAndRemoveContainers (stop_fails e) (remove_fails e) oldContainers) = None
      then Returned else Fatal)"
proof -
  obtain gate_evs r where w: "WaitForHealthyContainers (inspect e) (gate_now e) newContainers
                  (HealthcheckTimeout config) = (gate_evs, r)"
    by (cases "WaitForHealthyContainers (inspect e) (gate_now e) newContainers
                  (HealthcheckTimeout config)")
  obtain cleanup_evs x where s: "StopAndRemoveContainers (stop_fails e) (remove_fails e)
                  oldContainers = (cleanup_evs, x)"
    by (cases "StopAndRemoveContainers (stop_fails e) (remove_fails e) oldContainers")
  from assms w have "r = None" by simp
  with w s show ?thesis by (cases x) (simp_all add: gate_and_swap_def Let_def)
qed

lemma poll_error: "snd (poll ins containerIDs) = Inl err \<Longrightarrow> err = InspectError"
proof (induction containerIDs)
  case Nil
  then show ?case by simp
next
  case (Cons containerID rest)
  then show ?case
    by (auto simp: CheckContainerHealth_def
             split: sum.splits if_splits prod.splits inspect_result.splits option.splits)
qed

lemma WaitLoop_error:
  "snd (WaitLoop ins deadline now containerIDs) = Some err \<Longrightarrow>
     err = HealthTimeout \<or> err = InspectError"
proof (induction ins deadline now containerIDs rule: WaitLoop.induct)
  case (1 ins deadline now containerIDs)
  show ?case
  proof (cases "now < deadline")
    case False
    with "1.prems" show ?thesis by (simp add: WaitLoop.simps)
  next
    case True
    obtain seen r where p: "poll (ins now) containerIDs = (seen, r)" by (cases "poll (ins now) containerIDs")
    show ?thesis
    proof (cases r)
      case (Inl e)
      from p Inl have "e = InspectError" using poll_error [of "ins now" containerIDs e] by simp
      moreover from True p Inl "1.prems" have "err = e"
        by (subst (asm) WaitLoop.simps) simp
      ultimately show ?thesis by simp
    next
      case (Inr allHealthy)
      show ?thesis
      proof (cases allHealthy)
        case True
        with \<open>now < deadline\<close> p Inr "1.prems" show ?thesis
          by (subst (asm) WaitLoop.simps) simp
      next
        case False
        from \<open>now < deadline\<close> p Inr False "1.prems"
        have "snd (WaitLoop ins deadline (now + second) containerIDs) = Some err"
          by (subst (asm) WaitLoop.simps) (simp split: prod.splits)
        from "1.IH" [OF \<open>now < deadline\<close> p [symmetric] Inr False this] show ?thesis .
      qed
    qed
  qed
qed

lemma stop_ids_gate [simp]:
  "stop_ids (fst (WaitForHealthyContainers ins now ids timeout)) = []"
  "remove_ids (fst (WaitForHealthyContainers ins now ids timeout)) = []"
  using WaitLoop_no_stop [of ins "now + timeout" now ids]
  by (simp_all add: WaitForHealthyContainers_def)

lemmas run_defs =
  main_def gate_and_swap_def GetServiceContainers_def ScaleService_def
  WaitForHealthyContainers_def WaitLoop.simps CheckContainerHealth_def label_def
  api_container_def example_run_def second_def Let_def

lemma main_env_inspect_fails:
  "main example_run env_inspect_fails =
     ([EvGetServiceContainers ''api'', EvGetServiceContainers ''api'', EvScaleService ''api'' 2,
       EvContainerInspect ''cccccccccccc0003'',
       EvContainerStop ''cccccccccccc0003'', EvContainerRemove ''cccccccccccc0003''],
      RolledBack)"
  by (simp add: run_defs env_inspect_fails_def env_healthy_def)

lemma gate_env_inspect_fails:
  "WaitForHealthyContainers (inspect env_inspect_fails) (gate_now env_inspect_fails)
     [''cccccccccccc0003''] (HealthcheckTimeout example_run) =
     ([EvContainerInspect ''cccccccccccc0003''], Some InspectError)"
  by (simp add: run_defs env_inspect_fails_def env_healthy_def)

lemma main_env_stop_fails:
  "main example_run env_stop_fails =
     ([EvGetServiceContainers ''api'', EvGetServiceContainers ''api'', EvScaleService ''api'' 4,
       EvContainerInspect ''cccccccccccc0003'', EvSleep 1000000000,
       EvContainerInspect ''cccccccccccc0003'', EvSleep 1000000000,
       EvContainerStop ''cccccccccccc0003''],
      RolledBack)"
  by (simp add: run_defs env_stop_fails_def)

text \<open>
  Claim C2. In the run \<open>env_healthy\<close> every call succeeds and the new container is
  healthy: \<open>main\<close> reaches the cleanup, stops and removes the old container, and
  returns. The removal of the old container is its last call: nothing rebuilds the
  routing document afterwards.
\<close>

theorem main_ends_after_cleanup:
  "main example_run env_healthy =
     ([EvGetServiceContainers ''api'', EvGetServiceContainers ''api'', EvScaleService ''api'' 2,
       EvContainerInspect ''cccccccccccc0003'',
       EvUpdateConfig [''aaaaaaaaaaaa0001''] [''cccccccccccc0003''] ''traefik/dynamic_conf.yml'',
       EvSleep 10000000000,
       EvContainerStop ''aaaaaaaaaaaa0001'', EvContainerRemove ''aaaaaaaaaaaa0001''],
      Returned)"
  by (simp add: run_defs env_healthy_def)



text \<open>
  Claim C3, as stated, fails: in the run \<open>env_inspect_fails\<close> the health gate does not
  time out, it ends with the error of a failed inspection, and \<open>main\<close> still takes the
  rollback branch and stops the new container.
\<close>

theorem rollback_on_inspect_error_counterexample:
  "snd (main example_run env_inspect_fails) = RolledBack \<and>
   stop_ids (fst (main example_run env_inspect_fails)) = [''cccccccccccc0003''] \<and>
   snd (WaitForHealthyContainers (inspect env_inspect_fails) (gate_now env_inspect_fails)
          [''cccccccccccc0003''] (HealthcheckTimeout example_run)) = Some InspectError \<and>
   InspectError \<noteq> HealthTimeout"
  unfolding main_env_inspect_fails gate_env_inspect_fails by simp

lemma rollback_imp_gate_error:
  assumes up: "ServiceArg config \<noteq> ''up''" "ServiceArg config \<noteq> ''up -d''"
    and rb: "snd (main config e) = RolledBack"
  shows "\<exists>containers oldContainers postScale err.
           GetServiceContainers (listing0 e) (ServiceArg config) = Inr containers \<and>
           containers \<noteq> [] \<and>
           GetServiceContainers (listing1 e) (ServiceArg config) = Inr oldContainers \<and>
           ScaleService (scale_fails e (ServiceArg config) (length containers * 2)) (listing2 e)
             (ServiceArg config) = Inr postScale \<and>
           snd (WaitForHealthyContainers (inspect e) (gate_now e)
                  (filteredNewContainers oldContainers postScale) (HealthcheckTimeout config)) = Some err \<and>
           (err = HealthTimeout \<or> err = InspectError)"
proof (cases "GetServiceContainers (listing0 e) (ServiceArg config)")
  case (Inl err)
  from main_list0_error [OF up Inl] rb show ?thesis by simp
next
  case l0: (Inr containers)
  show ?thesis
  proof (cases "containers = []")
    case True
    with main_not_running [OF up] l0 rb show ?thesis by simp
  next
    case ne: False
    show ?thesis
    proof (cases "GetServiceContainers (listing1 e) (ServiceArg config)")
      case (Inl err)
      from main_list1_error [OF up l0 ne Inl] rb show ?thesis by simp
    next
      case l1: (Inr oldContainers)
      show ?thesis
      proof (cases "ScaleService (scale_fails e (ServiceArg config) (length containers * 2))
                      (listing2 e) (ServiceArg config)")
        case (Inl err)
        from main_scale_error [OF up l0 ne l1 Inl] rb show ?thesis by simp
      next
        case sc: (Inr postScale)
        let ?gate = "WaitForHealthyContainers (inspect e) (gate_now e)
                  (filteredNewContainers oldContainers postScale) (HealthcheckTimeout config)"
        show ?thesis
        proof (cases "snd ?gate")
          case None
          from main_reaches_gate [OF up l0 ne l1 sc] gate_and_swap_ok [OF None] rb
          show ?thesis by (simp split: if_splits)
        next
          case (Some err)
          then have "err = HealthTimeout \<or> err = InspectError"
            unfolding WaitForHealthyContainers_def by (rule WaitLoop_error)
          with l0 ne l1 sc Some show ?thesis by blast
        qed
      qed
    qed
  qed
qed

text \<open>
  Claim C3, amended. In a rolling update \<open>main\<close> takes the rollback branch exactly when
  it reaches the health gate and the gate returns an error, which is the timeout or a
  failed inspection. A failed listing or scale call ends \<open>main\<close> in \<open>log.Fatalf\<close> before
  any container is stopped; a failed stop or remove during cleanup ends it in
  \<open>log.Fatalf\<close> after calls on old containers only. Every end other than a return has
  exit status 1.
\<close>

theorem rollback_iff_gate_error:
  assumes "ServiceArg config \<noteq> ''up''" and "ServiceArg config \<noteq> ''up -d''"
  shows "(snd (main config e) = RolledBack \<longleftrightarrow>
           (\<exists>containers oldContainers postScale err.
              GetServiceContainers (listing0 e) (ServiceArg config) = Inr containers \<and>
              containers \<noteq> [] \<and>
              GetServiceContainers (listing1 e) (ServiceArg config) = Inr oldContainers \<and>
              ScaleService (scale_fails e (ServiceArg config) (length containers * 2)) (listing2 e)
                (ServiceArg config) = Inr postScale \<and>
              snd (WaitForHealthyContainers (inspect e) (gate_now e)
                     (filteredNewContainers oldContainers postScale) (HealthcheckTimeout config)) = Some err \<and>
              (err = HealthTimeout \<or> err = InspectError))) \<and>
         (\<forall>err. GetServiceContainers (listing0 e) (ServiceArg config) = Inl err \<longrightarrow>
            main config e = ([EvGetServiceContainers (ServiceArg config)], Fatal)) \<and>
         (\<forall>containers err.
            GetServiceContainers (listing0 e) (ServiceArg config) = Inr containers \<and>
            containers \<noteq> [] \<and>
            GetServiceContainers (listing1 e) (ServiceArg config) = Inl err \<longrightarrow>
            main config e =
              ([EvGetServiceContainers (ServiceArg config),
                EvGetServiceContainers (ServiceArg config)], Fatal)) \<and>
         (\<forall>containers oldContainers err.
            GetServiceContainers (listing0 e) (ServiceArg config) = Inr containers \<and>
            containers \<noteq> [] \<and>
            GetServiceContainers (listing1 e) (ServiceArg config) = Inr oldContainers \<and>
            ScaleService (scale_fails e (ServiceArg config) (length containers * 2)) (listing2 e)
              (ServiceArg config) = Inl err \<longrightarrow>
            main config e =
              ([EvGetServiceContainers (ServiceArg config), EvGetServiceContainers (ServiceArg config),
                EvScaleService (ServiceArg config) (length containers * 2)], Fatal)) \<and>
         (\<forall>containers oldContainers postScale err.
            GetServiceContainers (listing0 e) (ServiceArg config) = Inr containers \<and>
            containers \<noteq> [] \<and>
            GetServiceContainers (listing1 e) (ServiceArg config) = Inr oldContainers \<and>
            ScaleService (scale_fails e (ServiceArg config) (length containers * 2)) (listing2 e)
              (ServiceArg config) = Inr postScale \<and>
            snd (WaitForHealthyContainers (inspect e) (gate_now e)
                   (filteredNewContainers oldContainers postScale) (HealthcheckTimeout config)) = None \<and>
            snd (StopAndRemoveContainers (stop_fails e) (remove_fails e) oldContainers) = Some err \<longrightarrow>
            snd (main config e) = Fatal \<and>
            prefix (stop_ids (fst (main config e))) oldContainers \<and>
            prefix (remove_ids (fst (main config e))) (stop_ids (fst (main config e)))) \<and>
         (snd (main config e) \<noteq> Returned \<longrightarrow> exit_code (snd (main config e)) = 1)"
proof (intro conjI allI impI iffI)
  assume "snd (main config e) = RolledBack"
  with assms show "\<exists>containers oldContainers postScale err.
              GetServiceContainers (listing0 e) (ServiceArg config) = Inr containers \<and>
              containers \<noteq> [] \<and>
              GetServiceContainers (listing1 e) (ServiceArg config) = Inr oldContainers \<and>
              ScaleService (scale_fails e (ServiceArg config) (length containers * 2)) (listing2 e)
                (ServiceArg config) = Inr postScale \<and>
              snd (WaitForHealthyContainers (inspect e) (gate_now e)
                     (filteredNewContainers oldContainers postScale) (HealthcheckTimeout config)) = Some err \<and>
              (err = HealthTimeout \<or> err = InspectError)"
    by (rule rollback_imp_gate_error)
next
  assume "\<exists>containers oldContainers postScale err.
              GetServiceContainers (listing0 e) (ServiceArg config) = Inr containers \<and>
              containers \<noteq> [] \<and>
              GetServiceContainers (listing1 e) (ServiceArg config) = Inr oldContainers \<and>
              ScaleService (scale_fails e (ServiceArg config) (length containers * 2)) (listing2 e)
                (ServiceArg config) = Inr postScale \<and>
              snd (WaitForHealthyContainers (inspect e) (gate_now e)
                     (filteredNewContainers oldContainers postScale) (HealthcheckTimeout config)) = Some err \<and>
              (err = HealthTimeout \<or> err = InspectError)"
  then obtain containers oldContainers postScale err where
    h: "GetServiceContainers (listing0 e) (ServiceArg config) = Inr containers"
       "containers \<noteq> []"
       "GetServiceContainers (listing1 e) (ServiceArg config) = Inr oldContainers"
       "ScaleService (scale_fails e (ServiceArg config) (length containers * 2)) (listing2 e)
                (ServiceArg config) = Inr postScale"
       "snd (WaitForHealthyContainers (inspect e) (gate_now e)
                     (filteredNewContainers oldContainers postScale) (HealthcheckTimeout config)) = Some err"
    by blast
  show "snd (main config e) = RolledBack"
    unfolding main_reaches_gate [OF assms h(1-4)] gate_and_swap_error [OF h(5)] by simp
next
  fix err
  assume "GetServiceContainers (listing0 e) (ServiceArg config) = Inl err"
  with assms show "main config e = ([EvGetServiceContainers (ServiceArg config)], Fatal)"
    by (rule main_list0_error)
next
  fix containers err
  assume "GetServiceContainers (listing0 e) (ServiceArg config) = Inr containers \<and>
            containers \<noteq> [] \<and>
            GetServiceContainers (listing1 e) (ServiceArg config) = Inl err"
  then show "main config e =
              ([EvGetServiceContainers (ServiceArg config),
                EvGetServiceContainers (ServiceArg config)], Fatal)"
    using main_list1_error [OF assms] by blast
next
  fix containers oldContainers err
  assume "GetServiceContainers (listing0 e) (ServiceArg config) = Inr containers \<and>
            containers \<noteq> [] \<and>
            GetServiceContainers (listing1 e) (ServiceArg config) = Inr oldContainers \<and>
            ScaleService (scale_fails e (ServiceArg config) (length containers * 2)) (listing2 e)
              (ServiceArg config) = Inl err"
  then show "main config e =
              ([EvGetServiceContainers (ServiceArg config), EvGetServiceContainers (ServiceArg config),
                EvScaleService (ServiceArg config) (length containers * 2)], Fatal)"
    using main_scale_error [OF assms] by blast
next
  fix containers oldContainers postScale err
  assume a: "GetServiceContainers (listing0 e) (ServiceArg config) = Inr containers \<and>
            containers \<noteq> [] \<and>
            GetServiceContainers (listing1 e) (ServiceArg config) = Inr oldContainers \<and>
            ScaleService (scale_fails e (ServiceArg config) (length containers * 2)) (listing2 e)
              (ServiceArg config) = Inr postScale \<and>
            snd (WaitForHealthyContainers (inspect e) (gate_now e)
                   (filteredNewContainers oldContainers postScale) (HealthcheckTimeout config)) = None \<and>
            snd (StopAndRemoveContainers (stop_fails e) (remove_fails e) oldContainers) = Some err"
  then have h: "GetServiceContainers (listing0 e) (ServiceArg config) = Inr containers"
       "containers \<noteq> []"
       "GetServiceContainers (listing1 e) (ServiceArg config) = Inr oldContainers"
       "ScaleService (scale_fails e (ServiceArg config) (length containers * 2)) (listing2 e)
                (ServiceArg config) = Inr postScale"
       "snd (WaitForHealthyContainers (inspect e) (gate_now e)
                     (filteredNewContainers oldContainers postScale) (HealthcheckTimeout config)) = None"
       "snd (StopAndRemoveContainers (stop_fails e) (remove_fails e) oldContainers) = Some err"
    by blast+
  note m = main_reaches_gate [OF assms h(1-4)] gate_and_swap_ok [OF h(5)]
  show "snd (main config e) = Fatal" unfolding m using h(6) by simp
  have s: "stop_ids (fst (main config e)) =
           stop_ids (fst (StopAndRemoveContainers (stop_fails e) (remove_fails e) oldContainers))"
    and r: "remove_ids (fst (main config e)) =
           remove_ids (fst (StopAndRemoveContainers (stop_fails e) (remove_fails e) oldContainers))"
    unfolding m by (simp_all add: stop_ids_append remove_ids_append)
  show "prefix (stop_ids (fst (main config e))) oldContainers"
    unfolding s using StopAndRemove_ids [of "stop_fails e" "remove_fails e" oldContainers] by simp
  show "prefix (remove_ids (fst (main config e))) (stop_ids (fst (main config e)))"
    unfolding s r using StopAndRemove_ids [of "stop_fails e" "remove_fails e" oldContainers] by simp
next
  assume "snd (main config e) \<noteq> Returned"
  then show "exit_code (snd (main config e)) = 1"
    by (cases "snd (main config e)") simp_all
qed

theorem rollback_iff_gate_error_witness:
  "ServiceArg example_run \<noteq> ''up'' \<and> ServiceArg example_run \<noteq> ''up -d'' \<and>
   snd (main example_run env_stop_fails) = RolledBack \<and>
   exit_code (snd (main example_run env_stop_fails)) = 1"
proof -
  have 1: "ServiceArg example_run \<noteq> ''up''" and 2: "ServiceArg example_run \<noteq> ''up -d''"
    by (simp_all add: example_run_def)
  have r: "snd (main example_run env_stop_fails) = RolledBack"
    unfolding main_env_stop_fails by simp
  then have n: "snd (main example_run env_stop_fails) \<noteq> Returned" by simp
  from rollback_iff_gate_error [OF 1 2, of env_stop_fails] n
  have "exit_code (snd (main example_run env_stop_fails)) = 1" by blast
  with 1 2 r show ?thesis by blast
qed





section \<open>Properties of the health gate\<close>






















section \<open>Properties of the publication\<close>

text \<open>
  Claim C1. Both publishers write the document with \<open>os.WriteFile\<close> on the configured
  path itself. On the example disk, where the path holds the text \<open>old\<close>, a run of
  \<open>UpdateConfig\<close> and a run of \<open>GenerateConfig\<close> that both publish the text \<open>new\<close> go
  through a state of the disk in which the path holds the empty text, which is neither
  the old document nor the new one, and in no state of the run is there a file besides
  the two that the disk had: no temporary file is written and nothing is renamed.
\<close>

theorem publish_writes_in_place:
  "UpdateConfig example_unmarshal example_marshal
       [''aaaaaaaaaaaa1111''] [''cccccccccccc3333''] ''traefik/dynamic_conf.yml'' example_disk =
     (None,
      [example_disk\<lparr>files := (files example_disk)(''traefik/dynamic_conf.yml'' \<mapsto> [])\<rparr>,
       example_disk\<lparr>files := (files example_disk)(''traefik/dynamic_conf.yml'' \<mapsto> ''new'')\<rparr>]) \<and>
   GenerateConfig example_parse_compose example_json example_marshal
       [example_container] [''docker-compose.yml''] ''traefik/dynamic_conf.yml'' example_disk =
     (None,
      [example_disk\<lparr>files := (files example_disk)(''traefik/dynamic_conf.yml'' \<mapsto> [])\<rparr>,
       example_disk\<lparr>files := (files example_disk)(''traefik/dynamic_conf.yml'' \<mapsto> ''new'')\<rparr>]) \<and>
   files example_disk ''traefik/dynamic_conf.yml'' = Some ''old'' \<and>
   files (example_disk\<lparr>files := (files example_disk)(''traefik/dynamic_conf.yml'' \<mapsto> [])\<rparr>)
       ''traefik/dynamic_conf.yml'' = Some [] \<and>
   [] \<noteq> ''old'' \<and> [] \<noteq> ''new'' \<and>
   dom (files (example_disk\<lparr>files := (files example_disk)(''traefik/dynamic_conf.yml'' \<mapsto> [])\<rparr>)) =
     {''docker-compose.yml'', ''traefik/dynamic_conf.yml''} \<and>
   dom (files (example_disk\<lparr>files := (files example_disk)(''traefik/dynamic_conf.yml'' \<mapsto> ''new'')\<rparr>)) =
     {''docker-compose.yml'', ''traefik/dynamic_conf.yml''}"
proof (intro conjI)
  show "UpdateConfig example_unmarshal example_marshal
       [''aaaaaaaaaaaa1111''] [''cccccccccccc3333''] ''traefik/dynamic_conf.yml'' example_disk =
     (None,
      [example_disk\<lparr>files := (files example_disk)(''traefik/dynamic_conf.yml'' \<mapsto> [])\<rparr>,
       example_disk\<lparr>files := (files example_disk)(''traefik/dynamic_conf.yml'' \<mapsto> ''new'')\<rparr>])"
    by (simp add: UpdateConfig_def os_ReadFile_def os_WriteFile_def UpdateConfig_doc_def
          containerMap_def example_disk_def example_unmarshal_def example_marshal_def)
  have c: "composeServices_loop example_parse_compose example_disk [''docker-compose.yml'']
             (\<lambda>serviceName. False) = Inr (\<lambda>serviceName. serviceName = ''api'')"
    by (simp add: os_ReadFile_def example_disk_def example_parse_compose_def)
  have d: "GenerateConfig_doc example_json (\<lambda>serviceName. serviceName = ''api'')
             [example_container] = Inr example_generated"
    using example_GenerateConfig_doc unfolding example_json_def .
  show "GenerateConfig example_parse_compose example_json example_marshal
       [example_container] [''docker-compose.yml''] ''traefik/dynamic_conf.yml'' example_disk =
     (None,
      [example_disk\<lparr>files := (files example_disk)(''traefik/dynamic_conf.yml'' \<mapsto> [])\<rparr>,
       example_disk\<lparr>files := (files example_disk)(''traefik/dynamic_conf.yml'' \<mapsto> ''new'')\<rparr>])"
    unfolding GenerateConfig_def c
    by (simp add: d os_WriteFile_def example_disk_def example_marshal_def)
  show "files example_disk ''traefik/dynamic_conf.yml'' = Some ''old''"
    by (simp add: example_disk_def)
  show "files (example_disk\<lparr>files := (files example_disk)(''traefik/dynamic_conf.yml'' \<mapsto> [])\<rparr>)
       ''traefik/dynamic_conf.yml'' = Some []" by simp
  show "[] \<noteq> ''old''" by simp
  show "[] \<noteq> ''new''" by simp
  show "dom (files (example_disk\<lparr>files := (files example_disk)(''traefik/dynamic_conf.yml'' \<mapsto> [])\<rparr>)) =
     {''docker-compose.yml'', ''traefik/dynamic_conf.yml''}"
    by (auto simp: example_disk_def)
  show "dom (files (example_disk\<lparr>files := (files example_disk)(''traefik/dynamic_conf.yml'' \<mapsto> ''new'')\<rparr>)) =
     {''docker-compose.yml'', ''traefik/dynamic_conf.yml''}"
    by (auto simp: example_disk_def)
qed

end
